theory Spec2Isabelle
  imports Main "HOL-Library.Word"
begin

unbundle bit_operations_syntax

section \<open>Python values, exceptions and dictionaries\<close>

text \<open>
  The sources are Python 2. Exceptions are values: every \<open>raise\<close>, failed \<open>assert\<close> and
  failing builtin operation of the modelled code is a branch that returns \<open>Inl\<close> of one of
  the exceptions below. \<open>ValueError\<close> carries its message and, when the source passes one
  as second argument, the exception it wraps.
\<close>

datatype exn =
    KeyError string
  | TypeError
  | AttributeError
  | IndexError
  | AssertionError string
  | RuntimeError string
  | ValueError string "exn option"
  | DucktapeError string

text \<open>
  A \<open>dict\<close> with string keys is an association list with pairwise distinct keys. The order
  of the list is the order in which the dictionary enumerates its keys (\<open>d.keys()\<close>),
  which is not the order in which the keys were given; equality of dictionaries (\<open>==\<close>)
  does not depend on that order and is \<open>dict_eq\<close>.
\<close>

type_synonym 'v dict = "(string \<times> 'v) list"

fun dict_set :: "string \<Rightarrow> 'v \<Rightarrow> 'v dict \<Rightarrow> 'v dict" where
  "dict_set k v [] = [(k, v)]"
| "dict_set k v ((k', v') # d) =
     (if k = k' then (k, v) # d else (k', v') # dict_set k v d)"

definition dict_eq :: "'v dict \<Rightarrow> 'v dict \<Rightarrow> bool" where
  "dict_eq a b = (\<forall>k \<in> set (map fst a) \<union> set (map fst b). map_of a k = map_of b k)"

subsection \<open>The key order of a dictionary of keyword arguments\<close>

text \<open>
  Modelled from the CPython 2.7 interpreter, the interpreter of these sources, which is
  not among them. A dictionary is a hash table and enumerates its keys in the order of
  the slots of the table. The table of a dictionary of at most five keys has eight slots,
  and a key goes to the slot that the low three bits of its hash name when that slot is
  free. The hash of a string is the function \<open>string_hash\<close> of \<open>Objects/stringobject.c\<close>,
  here on a long of 64 bits and without hash randomisation, which is the default (on a
  long of 32 bits the low three bits are the same).
\<close>

definition string_hash :: "string \<Rightarrow> 64 word" where
  "string_hash s =
     (if s = [] then 0
      else let x0 = push_bit 7 (of_nat (of_char (hd s)));
               x1 = fold (\<lambda>c x. (1000003 * x) XOR of_nat (of_char c)) s x0;
               x2 = x1 XOR of_nat (length s)
           in if x2 = - 1 then - 2 else x2)"

definition hash_slot :: "string \<Rightarrow> nat" where
  "hash_slot k = unat (string_hash k AND 7)"

text \<open>
  The dictionary \<open>kwargs\<close> that a function declared with \<open>**kwargs\<close> receives, for keyword
  arguments given in the order of the list: the interpreter inserts them into an empty
  dictionary, and a call that passes the dictionary on with \<open>**kwargs\<close> inserts its items
  into another empty dictionary. Where no two names have the same slot every name is in
  its own slot, whatever the order of insertion, and the dictionary enumerates the names
  by their slots. Where two names have the same slot, or there are more than five names,
  the order depends on the probing and the growth of the table, which are not modelled:
  the result is \<open>None\<close> there.
\<close>

definition kwargs_dict :: "(string \<times> 'v) list \<Rightarrow> 'v dict option" where
  "kwargs_dict kwargs =
     (if length kwargs \<le> 5 \<and> distinct (map (\<lambda>kv. hash_slot (fst kv)) kwargs)
      then Some (concat (map (\<lambda>i. filter (\<lambda>kv. hash_slot (fst kv) = i) kwargs) [0..<8]))
      else None)"

section \<open>The mark framework (ducktape/mark/_mark.py)\<close>

text \<open>
  The four mark classes. \<open>Ignore\<close> holds the keyword arguments it was built with,
  \<open>IgnoreAll\<close> is the subclass whose \<open>injected_args\<close> is \<open>None\<close>, \<open>Matrix\<close> maps each
  parameter name to the list of its candidate values (\<open>Matrix.__init__\<close> refuses a value
  that is not iterable, so the values are lists here), \<open>Parametrize\<close> maps each parameter
  name to one value. The type \<open>'v\<close> is the type of parameter values; its equality stands
  for Python's \<open>==\<close> on them.
\<close>

datatype 'v mark =
    Ignore "'v dict"
  | IgnoreAll
  | Matrix "(string \<times> 'v list) list"
  | Parametrize "'v dict"

fun name :: "'v mark \<Rightarrow> string" where
  "name (Ignore _) = ''IGNORE''"
| "name IgnoreAll = ''IGNORE''"
| "name (Matrix _) = ''MATRIX''"
| "name (Parametrize _) = ''PARAMETRIZE''"

text \<open>The attribute \<open>self.injected_args\<close> of the two ignore classes.\<close>

fun ignore_injected_args :: "'v mark \<Rightarrow> 'v dict option" where
  "ignore_injected_args (Ignore kw) = Some kw"
| "ignore_injected_args _ = None"

text \<open>
  A function object with the two attributes \<open>Mark.mark\<close> maintains on it; \<open>None\<close> is an
  absent attribute (\<open>hasattr\<close> is false).
\<close>

record 'v pyfunction =
  fun_name :: string
  marks :: "'v mark list option"
  mark_names :: "string set option"

text \<open>
  What a test context holds in its \<open>function\<close> field: the test function itself, or the
  wrapper that \<open>_inject\<close> builds around it, which records the injected keyword
  arguments \<open>kwargs\<close> and the wrapped function \<open>f\<close>.
\<close>

datatype 'v callable =
    FunRef string
  | Injected "'v dict" "'v callable"

definition inject :: "'v dict \<Rightarrow> 'v callable \<Rightarrow> 'v callable" where
  "inject kwargs f = Injected kwargs f"

text \<open>
  Modelled from the spec: the class \<open>TestContext\<close> is not among the sources. The spec
  gives the test invocation descriptor session, module, class, function, file and cluster
  references, an \<open>injected_args\<close> mapping, a mutable boolean \<open>ignore\<close> flag, and a
  copy-with-overrides operation taking a new function and a new injected-arguments
  mapping. \<open>None\<close> in \<open>injected_args\<close> is a descriptor without injected arguments.
\<close>

record 'v test_context =
  session_context :: string
  module_ref :: string
  cls :: string
  function_ref :: "'v callable"
  file_ref :: string
  cluster :: string
  injected_args :: "'v dict option"
  ignore :: bool

definition copy :: "'v test_context \<Rightarrow> 'v callable \<Rightarrow> 'v dict \<Rightarrow> 'v test_context" where
  "copy ctx f args = ctx\<lparr>function_ref := f, injected_args := Some args\<rparr>"

subsection \<open>Attaching and querying marks\<close>

definition mark :: "'v pyfunction \<Rightarrow> 'v mark \<Rightarrow> 'v pyfunction" where
  "mark f m =
     f\<lparr>marks := (case marks f of Some ms \<Rightarrow> Some (ms @ [m]) | None \<Rightarrow> Some [m]),
       mark_names := (case mark_names f of Some ns \<Rightarrow> Some (insert (name m) ns)
                      | None \<Rightarrow> Some {name m})\<rparr>"

definition marked :: "'v pyfunction \<Rightarrow> string \<Rightarrow> bool" where
  "marked f mark_name =
     (case mark_names f of None \<Rightarrow> False | Some ns \<Rightarrow> mark_name \<in> ns)"

text \<open>
  \<open>Mark.mark\<close> sets both attributes and \<open>clear_marks\<close> deletes both, so one is present
  exactly when the other is.
\<close>

definition clear_marks :: "'v pyfunction \<Rightarrow> 'v pyfunction" where
  "clear_marks f =
     (case marks f of None \<Rightarrow> f | Some _ \<Rightarrow> f\<lparr>marks := None, mark_names := None\<rparr>)"

definition is_parametrize_mark :: "'v mark \<Rightarrow> bool" where
  "is_parametrize_mark m = (name m = ''PARAMETRIZE'' \<or> name m = ''MATRIX'')"

definition parametrized :: "'v pyfunction \<Rightarrow> bool" where
  "parametrized f = (marked f ''PARAMETRIZE'' \<or> marked f ''MATRIX'')"

definition ignored :: "'v pyfunction \<Rightarrow> bool" where
  "ignored f = marked f ''IGNORE''"

subsection \<open>Ignore.apply\<close>

text \<open>
  The comparison \<open>self.injected_args == ctx.injected_args\<close>: two dictionaries are equal
  when they have the same keys with equal values, \<open>None\<close> equals only \<open>None\<close>.
\<close>

fun args_eq :: "'v dict option \<Rightarrow> 'v dict option \<Rightarrow> bool" where
  "args_eq None None = True"
| "args_eq (Some a) (Some b) = dict_eq a b"
| "args_eq _ _ = False"

definition Ignore_apply ::
  "'v dict option \<Rightarrow> 'v test_context \<Rightarrow> 'v test_context list \<Rightarrow> exn + 'v test_context list"
where
  "Ignore_apply self_injected_args seed_context context_list =
     (if \<not> length context_list > 0
      then Inl (AssertionError ''ignore annotation is not being applied to any test cases'')
      else Inr (map (\<lambda>ctx. ctx\<lparr>ignore := ignore ctx \<or> self_injected_args = None
                                   \<or> args_eq self_injected_args (injected_args ctx)\<rparr>)
                    context_list))"

subsection \<open>cartesian_product_dict\<close>

text \<open>
  \<open>itertools.product\<close> belongs to the Python standard library; this is the equivalent
  program its documentation gives: \<open>result = [[]]\<close>, then for every pool in turn
  \<open>result = [x + [y] for x in result for y in pool]\<close>.
\<close>

definition itertools_product :: "'a list list \<Rightarrow> 'a list list" where
  "itertools_product pools =
     fold (\<lambda>pool result. concat (map (\<lambda>x. map (\<lambda>y. x @ [y]) pool) result)) pools [[]]"

text \<open>
  The inner loop \<open>for i in range(len(key_list)): new_dict[key_list[i]] = v[i]\<close>. The
  tuples \<open>v\<close> of the product have one component for each key, so \<open>v[i]\<close> is in range.
\<close>

definition new_dict :: "string list \<Rightarrow> 'v list \<Rightarrow> 'v dict" where
  "new_dict key_list v = fold (\<lambda>i d. dict_set (key_list ! i) (v ! i) d) [0..<length key_list] []"

definition cartesian_product_dict :: "(string \<times> 'v list) list \<Rightarrow> 'v dict list" where
  "cartesian_product_dict d =
     (let key_list = map fst d;
          values_list = map snd d
      in map (new_dict key_list) (itertools_product values_list))"

subsection \<open>Matrix.apply and Parametrize.apply\<close>

text \<open>\<open>context_list.insert(0, c)\<close> puts \<open>c\<close> in front of the list.\<close>

definition Matrix_apply ::
  "(string \<times> 'v list) list \<Rightarrow> 'v test_context \<Rightarrow> 'v test_context list \<Rightarrow> 'v test_context list"
where
  "Matrix_apply self_injected_args seed_context context_list =
     fold (\<lambda>args cl. copy seed_context (inject args (function_ref seed_context)) args # cl)
          (cartesian_product_dict self_injected_args) context_list"

definition Parametrize_apply ::
  "'v dict \<Rightarrow> 'v test_context \<Rightarrow> 'v test_context list \<Rightarrow> 'v test_context list"
where
  "Parametrize_apply self_injected_args seed_context context_list =
     copy seed_context (inject self_injected_args (function_ref seed_context)) self_injected_args
       # context_list"

subsection \<open>MarkedFunctionExpander\<close>

text \<open>
  Python is dynamically typed, and \<open>expand\<close> assigns to \<open>self.context_list\<close> whatever the
  unpacking of a mark's result puts there: a list of test contexts, or a single test
  context.
\<close>

datatype 'v ctx_value =
    CtxList "'v test_context list"
  | CtxObj "'v test_context"

text \<open>
  \<open>m.apply(seed_context, context_list)\<close>, dispatched on the class of the mark. On a list
  these are the three methods above. On a single test context, which has no length and no
  \<open>insert\<close> method, \<open>len(context_list)\<close> raises \<open>TypeError\<close> and \<open>context_list.insert\<close>
  raises \<open>AttributeError\<close>; a matrix whose product is empty never reaches the \<open>insert\<close>
  and returns its argument.
\<close>

fun apply_mark :: "'v mark \<Rightarrow> 'v test_context \<Rightarrow> 'v ctx_value \<Rightarrow> exn + 'v ctx_value" where
  "apply_mark (Matrix d) seed (CtxList l) = Inr (CtxList (Matrix_apply d seed l))"
| "apply_mark (Matrix d) seed (CtxObj c) =
     (if cartesian_product_dict d = [] then Inr (CtxObj c) else Inl AttributeError)"
| "apply_mark (Parametrize kw) seed (CtxList l) = Inr (CtxList (Parametrize_apply kw seed l))"
| "apply_mark (Parametrize kw) seed (CtxObj c) = Inl AttributeError"
| "apply_mark m seed (CtxList l) =
     (case Ignore_apply (ignore_injected_args m) seed l of
        Inl e \<Rightarrow> Inl e
      | Inr l' \<Rightarrow> Inr (CtxList l'))"
| "apply_mark m seed (CtxObj c) = Inl TypeError"

text \<open>
  The assignment \<open>self.seed_context, self.context_list = m.apply(...)\<close> unpacks the value
  that \<open>apply\<close> returned into two targets. Every \<open>apply\<close> returns the context list alone,
  so the unpacking succeeds only on a list of exactly two contexts and then binds the
  first to \<open>seed_context\<close> and the second, a single context, to \<open>context_list\<close>; a list of
  any other length raises \<open>ValueError\<close>, and a test context is not iterable.
\<close>

fun unpack_pair :: "'v ctx_value \<Rightarrow> exn + ('v test_context \<times> 'v ctx_value)" where
  "unpack_pair (CtxList [a, b]) = Inr (a, CtxObj b)"
| "unpack_pair (CtxList []) = Inl (ValueError ''need more than 0 values to unpack'' None)"
| "unpack_pair (CtxList [a]) = Inl (ValueError ''need more than 1 value to unpack'' None)"
| "unpack_pair (CtxList l) = Inl (ValueError ''too many values to unpack'' None)"
| "unpack_pair (CtxObj c) = Inl TypeError"

record 'v expander =
  target :: "'v pyfunction"
  seed_context :: "'v test_context"
  context_list :: "'v ctx_value"

text \<open>
  \<open>MarkedFunctionExpander.__init__\<close>. The second argument is the seed context that the
  constructor of \<open>TestContext\<close> returns for the function.
\<close>

definition MarkedFunctionExpander :: "'v pyfunction \<Rightarrow> 'v test_context \<Rightarrow> 'v expander" where
  "MarkedFunctionExpander f seed =
     \<lparr>target = f, seed_context = seed,
      context_list = CtxList (if parametrized f then [] else [seed])\<rparr>"

text \<open>The loop \<open>for m in f.marks\<close> of \<open>expand\<close>, threading the two attributes.\<close>

fun apply_marks ::
  "'v mark list \<Rightarrow> 'v test_context \<Rightarrow> 'v ctx_value \<Rightarrow> exn + ('v test_context \<times> 'v ctx_value)"
where
  "apply_marks [] seed cl = Inr (seed, cl)"
| "apply_marks (m # ms) seed cl =
     (case apply_mark m seed cl of
        Inl e \<Rightarrow> Inl e
      | Inr r \<Rightarrow>
          (case unpack_pair r of
             Inl e \<Rightarrow> Inl e
           | Inr (seed', cl') \<Rightarrow> apply_marks ms seed' cl'))"

text \<open>
  The branch of \<open>expand\<close> for explicit \<open>test_parameters\<close>: keep the marks that are neither
  parametrize nor matrix marks, clear the function, attach a \<open>Parametrize\<close> mark of the
  parameters, then attach the kept marks again.
\<close>

definition override_marks :: "'v pyfunction \<Rightarrow> 'v dict \<Rightarrow> 'v pyfunction" where
  "override_marks f test_parameters =
     (let kept = (case marks f of
                    Some ms \<Rightarrow> filter (\<lambda>m. \<not> is_parametrize_mark m) ms
                  | None \<Rightarrow> []);
          f1 = (case marks f of Some _ \<Rightarrow> clear_marks f | None \<Rightarrow> f);
          f2 = mark f1 (Parametrize test_parameters)
      in fold (\<lambda>m g. mark g m) kept f2)"

text \<open>
  \<open>expand\<close> returns the function object, whose marks it may have replaced, and either
  the exception it raised or the value of \<open>self.context_list\<close> it returned.
\<close>

definition expand ::
  "'v expander \<Rightarrow> 'v dict option \<Rightarrow> 'v pyfunction \<times> (exn + 'v ctx_value)"
where
  "expand self test_parameters =
     (let f = (case test_parameters of
                 None \<Rightarrow> target self
               | Some tp \<Rightarrow> override_marks (target self) tp)
      in case marks f of
           None \<Rightarrow> (f, Inr (context_list self))
         | Some ms \<Rightarrow>
             (case apply_marks ms (seed_context self) (context_list self) of
                Inl e \<Rightarrow> (f, Inl e)
              | Inr (seed', cl') \<Rightarrow> (f, Inr cl')))"

text \<open>The decorators \<open>matrix\<close>, \<open>parametrize\<close> and \<open>ignore\<close> attach one mark each.\<close>

definition matrix :: "(string \<times> 'v list) list \<Rightarrow> 'v pyfunction \<Rightarrow> 'v pyfunction" where
  "matrix kwargs f = mark f (Matrix kwargs)"

definition parametrize :: "'v dict \<Rightarrow> 'v pyfunction \<Rightarrow> 'v pyfunction" where
  "parametrize kwargs f = mark f (Parametrize kwargs)"

definition ignore_all :: "'v pyfunction \<Rightarrow> 'v pyfunction" where
  "ignore_all f = mark f IgnoreAll"

definition ignore_args :: "'v dict \<Rightarrow> 'v pyfunction \<Rightarrow> 'v pyfunction" where
  "ignore_args kwargs f = mark f (Ignore kwargs)"

section \<open>The static cluster (ducktape/cluster/json.py)\<close>

subsection \<open>Loaded JSON and remote accounts\<close>

text \<open>
  The Python values a JSON document loads into: \<open>None\<close>, booleans, integers, strings,
  lists, and dictionaries with string keys (floating-point numbers are left out).
\<close>

datatype pyval =
    PNone
  | PBool bool
  | PInt int
  | PStr string
  | PList "pyval list"
  | PDict "(string \<times> pyval) list"

text \<open>
  \<open>RemoteAccount.__init__\<close> stores its arguments as they come. The other attributes of
  the object (\<open>logger\<close> and the three caches \<open>_ssh_config\<close>, \<open>_ssh_client\<close>,
  \<open>_scp_client\<close>) are \<open>None\<close> in every account the cluster builds, and the cluster never
  assigns them.
\<close>

record remote_account =
  hostname :: pyval
  user :: pyval
  ssh_args :: pyval
  ssh_hostname :: pyval
  externally_routable_ip :: pyval

definition RemoteAccount :: "pyval \<Rightarrow> pyval \<Rightarrow> pyval \<Rightarrow> pyval \<Rightarrow> pyval \<Rightarrow> remote_account" where
  "RemoteAccount h u a sh ip =
     \<lparr>hostname = h, user = u, ssh_args = a, ssh_hostname = sh, externally_routable_ip = ip\<rparr>"

text \<open>
  \<open>__hash__\<close> is \<open>hash(tuple(sorted(self.__dict__.items())))\<close>: it hashes every attribute
  value, and raises \<open>TypeError\<close> when one of them is a list or a dictionary.
\<close>

fun hashable :: "pyval \<Rightarrow> bool" where
  "hashable (PList _) = False"
| "hashable (PDict _) = False"
| "hashable _ = True"

definition account_hashable :: "remote_account \<Rightarrow> bool" where
  "account_hashable a =
     (hashable (hostname a) \<and> hashable (user a) \<and> hashable (ssh_args a)
      \<and> hashable (ssh_hostname a) \<and> hashable (externally_routable_ip a))"

text \<open>
  \<open>__eq__\<close> compares the attribute dictionaries of two accounts with \<open>==\<close>, attribute by
  attribute, and \<open>__hash__\<close> hashes the same values. On the values that can be hashed,
  \<open>==\<close> holds between a value and itself and between a boolean and the integer it is:
  \<open>True == 1\<close> and \<open>False == 0\<close>, with equal hashes. \<open>py_key\<close> maps a value to one
  representative of the values equal to it, so that two accounts that can be hashed are
  equal, and have the same hash, exactly when their keys are the same account.
\<close>

fun py_key :: "pyval \<Rightarrow> pyval" where
  "py_key (PBool b) = PInt (if b then 1 else 0)"
| "py_key v = v"

definition account_key :: "remote_account \<Rightarrow> remote_account" where
  "account_key a =
     \<lparr>hostname = py_key (hostname a), user = py_key (user a), ssh_args = py_key (ssh_args a),
      ssh_hostname = py_key (ssh_hostname a),
      externally_routable_ip = py_key (externally_routable_ip a)\<rparr>"

text \<open>
  The three operations \<open>__init__\<close> performs on the loaded document: subscription
  \<open>x["key"]\<close>, \<open>x.get("key")\<close> and iteration \<open>for ninfo in x\<close>. Only a dictionary can be
  subscripted with a string; iterating a dictionary enumerates its keys and iterating a
  string its characters.
\<close>

fun getitem :: "pyval \<Rightarrow> string \<Rightarrow> exn + pyval" where
  "getitem (PDict d) k = (case map_of d k of None \<Rightarrow> Inl (KeyError k) | Some v \<Rightarrow> Inr v)"
| "getitem _ k = Inl TypeError"

fun get :: "pyval \<Rightarrow> string \<Rightarrow> exn + pyval" where
  "get (PDict d) k = (case map_of d k of None \<Rightarrow> Inr PNone | Some v \<Rightarrow> Inr v)"
| "get _ k = Inl AttributeError"

fun iterate :: "pyval \<Rightarrow> exn + pyval list" where
  "iterate (PList l) = Inr l"
| "iterate (PDict d) = Inr (map (\<lambda>kv. PStr (fst kv)) d)"
| "iterate (PStr s) = Inr (map (\<lambda>c. PStr [c]) s)"
| "iterate _ = Inl TypeError"

subsection \<open>JsonCluster.__init__\<close>

text \<open>One element of the list comprehension; the arguments are evaluated left to right.\<close>

definition node_account :: "pyval \<Rightarrow> exn + remote_account" where
  "node_account ninfo =
     (case getitem ninfo ''hostname'' of Inl e \<Rightarrow> Inl e | Inr h \<Rightarrow>
      case get ninfo ''user'' of Inl e \<Rightarrow> Inl e | Inr u \<Rightarrow>
      case get ninfo ''ssh_args'' of Inl e \<Rightarrow> Inl e | Inr a \<Rightarrow>
      case get ninfo ''ssh_hostname'' of Inl e \<Rightarrow> Inl e | Inr sh \<Rightarrow>
      case get ninfo ''externally_routable_ip'' of Inl e \<Rightarrow> Inl e | Inr ip \<Rightarrow>
        Inr (RemoteAccount h u a sh ip))"

fun node_accounts :: "pyval list \<Rightarrow> exn + remote_account list" where
  "node_accounts [] = Inr []"
| "node_accounts (ninfo # rest) =
     (case node_account ninfo of Inl e \<Rightarrow> Inl e | Inr a \<Rightarrow>
      case node_accounts rest of Inl e \<Rightarrow> Inl e | Inr as \<Rightarrow> Inr (a # as))"

text \<open>The hook \<open>_externally_routable_ip\<close> of this class returns \<open>None\<close>.\<close>

definition externally_routable_ip_hook :: "remote_account \<Rightarrow> pyval" where
  "externally_routable_ip_hook account = PNone"

definition resolve_ip :: "remote_account \<Rightarrow> remote_account" where
  "resolve_ip acct =
     (if externally_routable_ip acct = PNone
      then acct\<lparr>externally_routable_ip := externally_routable_ip_hook acct\<rparr>
      else acct)"

text \<open>The body of the \<open>try\<close> block.\<close>

definition try_node_accounts :: "pyval \<Rightarrow> exn + remote_account list" where
  "try_node_accounts cluster_json =
     (case getitem cluster_json ''nodes'' of Inl e \<Rightarrow> Inl e | Inr nodes \<Rightarrow>
      case iterate nodes of Inl e \<Rightarrow> Inl e | Inr ninfos \<Rightarrow>
      case node_accounts ninfos of Inl e \<Rightarrow> Inl e | Inr accounts \<Rightarrow>
        Inr (map resolve_ip accounts))"

text \<open>
  The state of the cluster. The set \<open>in_use_nodes\<close> holds at most one of several equal
  accounts: it is the set of the keys of its members, and its length is the number of
  these keys.
\<close>

record json_cluster =
  available_nodes :: "remote_account list"
  in_use_nodes :: "remote_account set"
  id_supplier :: int

text \<open>
  The constructor. When \<open>cluster_json\<close> is \<open>None\<close> the document is read from the cluster
  file: \<open>loaded\<close> is what \<open>json.load(open(...))\<close> returns or raises there, outside the
  \<open>try\<close> block. Every exception of the \<open>try\<close> block is caught and replaced by
  \<open>ValueError("JSON cluster definition invalid", e)\<close>.
\<close>

definition JsonCluster :: "pyval \<Rightarrow> exn + pyval \<Rightarrow> exn + json_cluster" where
  "JsonCluster cluster_json loaded =
     (case (if cluster_json = PNone then loaded else Inr cluster_json) of
        Inl e \<Rightarrow> Inl e
      | Inr document \<Rightarrow>
          (case try_node_accounts document of
             Inl e \<Rightarrow> Inl (ValueError ''JSON cluster definition invalid'' (Some e))
           | Inr accounts \<Rightarrow>
               Inr \<lparr>available_nodes = accounts, in_use_nodes = {}, id_supplier = 0\<rparr>))"

subsection \<open>Size, alloc and free_single\<close>

definition len :: "json_cluster \<Rightarrow> nat" where
  "len self = length (available_nodes self) + card (in_use_nodes self)"

definition num_available_nodes :: "json_cluster \<Rightarrow> nat" where
  "num_available_nodes self = length (available_nodes self)"

text \<open>
  Modelled from the spec: the class \<open>ClusterSlot\<close> is not among the sources. The spec
  describes it as the pair of an allocated account and an integer slot id.
\<close>

record cluster_slot =
  account :: remote_account
  slot_id :: int

text \<open>The format \<open>%d\<close> of an integer: its decimal digits, after a minus sign if negative.\<close>

fun str_nat :: "nat \<Rightarrow> string" where
  "str_nat n =
     (if n < 10 then [''0123456789'' ! n]
      else str_nat (n div 10) @ [''0123456789'' ! (n mod 10)])"

declare str_nat.simps [simp del]

definition str_int :: "int \<Rightarrow> string" where
  "str_int i = (if i < 0 then ''-'' @ str_nat (nat (- i)) else str_nat (nat i))"

definition alloc_err_msg :: "nat \<Rightarrow> int \<Rightarrow> nat \<Rightarrow> nat \<Rightarrow> string" where
  "alloc_err_msg cluster_size requested allocated available =
     ''There aren't enough available nodes to satisfy the resource request. ''
     @ ''Total cluster size: '' @ str_int (int cluster_size)
     @ '', Requested: '' @ str_int requested
     @ '', Already allocated: '' @ str_int (int allocated)
     @ '', Available: '' @ str_int (int available) @ ''. ''
     @ ''Make sure your cluster has enough nodes to run your test or service(s).''"

text \<open>
  The loop of \<open>alloc\<close>, with the number of iterations left. Each iteration pops the first
  available account, wraps it in a slot, adds it to the set of accounts in use (which
  hashes it, and changes nothing when the set has an equal account) and increments the id
  supplier. An exception leaves the cluster as the iterations before it, and the
  statements before it, have made it.
\<close>

fun alloc_loop ::
  "nat \<Rightarrow> json_cluster \<Rightarrow> cluster_slot list \<Rightarrow> json_cluster \<times> (exn + cluster_slot list)"
where
  "alloc_loop 0 self result = (self, Inr result)"
| "alloc_loop (Suc n) self result =
     (case available_nodes self of
        [] \<Rightarrow> (self, Inl IndexError)
      | node # rest \<Rightarrow>
          (let self1 = self\<lparr>available_nodes := rest\<rparr>;
               slot = \<lparr>account = node, slot_id = id_supplier self1\<rparr>
           in if \<not> account_hashable node then (self1, Inl TypeError)
              else alloc_loop n
                     (self1\<lparr>in_use_nodes := insert (account_key node) (in_use_nodes self1),
                            id_supplier := id_supplier self1 + 1\<rparr>)
                     (result @ [slot])))"

definition alloc :: "json_cluster \<Rightarrow> int \<Rightarrow> json_cluster \<times> (exn + cluster_slot list)" where
  "alloc self num_nodes =
     (if num_nodes > int (num_available_nodes self)
      then (self, Inl (RuntimeError
                         (alloc_err_msg (len self) num_nodes (card (in_use_nodes self))
                                        (num_available_nodes self))))
      else alloc_loop (nat num_nodes) self [])"

text \<open>
  The membership test of the assertion hashes the account of the slot and holds when the
  set has an account equal to it; \<open>remove\<close> takes that account out of the set.
\<close>

definition free_single :: "json_cluster \<Rightarrow> cluster_slot \<Rightarrow> json_cluster \<times> (exn + unit)" where
  "free_single self slot =
     (if \<not> account_hashable (account slot) then (self, Inl TypeError)
      else if account_key (account slot) \<notin> in_use_nodes self
      then (self, Inl (AssertionError []))
      else (self\<lparr>in_use_nodes := in_use_nodes self - {account_key (account slot)},
                 available_nodes := available_nodes self @ [account slot]\<rparr>, Inr ()))"

text \<open>
  A sequence of calls on one cluster. A call that raises leaves the cluster as the
  exception found it, and the next call goes on from there.
\<close>

datatype call = Alloc int | Free_single cluster_slot

fun do_call :: "call \<Rightarrow> json_cluster \<Rightarrow> json_cluster" where
  "do_call (Alloc num_nodes) self = fst (alloc self num_nodes)"
| "do_call (Free_single slot) self = fst (free_single self slot)"

definition do_calls :: "call list \<Rightarrow> json_cluster \<Rightarrow> json_cluster" where
  "do_calls calls self = fold do_call calls self"

section \<open>SSH options of a remote account (ducktape/cluster/remoteaccount.py)\<close>

text \<open>
  \<open>s.split(sep)\<close> for a non-empty separator: the pieces of \<open>s\<close> between the occurrences
  of \<open>sep\<close>, found from left to right without overlap. The second argument of
  \<open>split_str\<close> is the piece read so far.
\<close>

fun split_str :: "string \<Rightarrow> string \<Rightarrow> string \<Rightarrow> string list" where
  "split_str sep piece [] = [piece]"
| "split_str sep piece (c # cs) =
     (if sep \<noteq> [] \<and> take (length sep) (c # cs) = sep
      then piece # split_str sep [] (drop (length sep) (c # cs))
      else split_str sep (piece @ [c]) cs)"

definition split :: "string \<Rightarrow> string \<Rightarrow> string list" where
  "split s sep = split_str sep [] s"

text \<open>
  \<open>s.strip()\<close> removes the whitespace characters at both ends; these are the ASCII
  whitespace characters.
\<close>

definition is_space :: "char \<Rightarrow> bool" where
  "is_space c = (c \<in> set [CHR '' '', CHR 0x09, CHR 0x0A, CHR 0x0B, CHR 0x0C, CHR 0x0D])"

definition strip :: "string \<Rightarrow> string" where
  "strip s = rev (dropWhile is_space (rev (dropWhile is_space s)))"

text \<open>\<open>s.replace(c, "")\<close> for a single character \<open>c\<close> removes every occurrence of it.\<close>

definition replace_by_empty :: "string \<Rightarrow> char \<Rightarrow> string" where
  "replace_by_empty s c = filter (\<lambda>x. x \<noteq> c) s"

text \<open>
  The loop over the cleaned segments: \<open>pair = a.split(' ')\<close>, then
  \<open>args_dict[pair[0]] = pair[1]\<close>, which raises \<open>IndexError\<close> when the segment has no
  space. A split has at least one piece, so \<open>pair[0]\<close> is in range.
\<close>

fun set_pairs :: "string list \<Rightarrow> pyval dict \<Rightarrow> exn + pyval dict" where
  "set_pairs [] args_dict = Inr args_dict"
| "set_pairs (a # rest) args_dict =
     (let pair = split a '' ''
      in if length pair < 2 then Inl IndexError
         else set_pairs rest (dict_set (pair ! 0) (PStr (pair ! 1)) args_dict))"

text \<open>
  The dictionary \<open>args_dict\<close> that \<open>_parse_ssh_opts\<close> builds from the host name and the
  string \<open>ssh_args\<close>. The three removed characters are the single quote, the double
  quote and the backslash.
\<close>

definition ssh_args_dict :: "pyval \<Rightarrow> string \<Rightarrow> exn + pyval dict" where
  "ssh_args_dict host args =
     (let args1 = split args ''-o'';
          args2 = map strip args1;
          args3 = map (\<lambda>a. replace_by_empty a (CHR 0x27)) args2;
          args4 = map (\<lambda>a. replace_by_empty a (CHR 0x22)) args3;
          args5 = map (\<lambda>a. replace_by_empty a (CHR 0x5C)) args4;
          args6 = filter (\<lambda>a. length a > 0) args5
      in set_pairs args6 [(''Host'', host)])"

text \<open>
  \<open>_parse_ssh_opts\<close> up to the dictionary: \<open>None\<close> when there are no \<open>ssh_args\<close> (the
  method returns an empty configuration), otherwise the dictionary whose entries it
  writes, one \<open>key value\<close> line each, to the file that the SSH configuration parser of
  the paramiko library then reads. A value of \<open>ssh_args\<close> that is not a string has no
  \<open>split\<close> method.
\<close>

definition parse_ssh_opts :: "remote_account \<Rightarrow> exn + pyval dict option" where
  "parse_ssh_opts self =
     (case ssh_args self of
        PNone \<Rightarrow> Inr None
      | PStr args \<Rightarrow>
          (case ssh_args_dict (hostname self) args of Inl e \<Rightarrow> Inl e | Inr d \<Rightarrow> Inr (Some d))
      | _ \<Rightarrow> Inl AttributeError)"

section \<open>Predicates used in the statements\<close>

text \<open>
  The generation order that the specification states for a matrix mark, from the
  parameters in the order of their declaration: the lexicographic order of the cartesian
  product in which the parameter declared last varies fastest.
\<close>

definition claimed_generation_order :: "(string \<times> 'v list) list \<Rightarrow> 'v dict list" where
  "claimed_generation_order declared =
     map (zip (map fst declared)) (product_lists (map snd declared))"


text \<open>
  The invariant of a cluster all of whose accounts are different and can be hashed: no
  two accounts of the queue are equal, and none of them is equal to an account in use.
\<close>

definition cluster_inv :: "json_cluster \<Rightarrow> bool" where
  "cluster_inv c =
     (distinct (map account_key (available_nodes c))
      \<and> account_key ` set (available_nodes c) \<inter> in_use_nodes c = {}
      \<and> finite (in_use_nodes c) \<and> (\<forall>a \<in> set (available_nodes c). account_hashable a))"


section \<open>Example objects\<close>

text \<open>
  A test function \<open>g\<close> without marks and its seed context, with integer parameter
  values; the two contexts that \<open>parametrize(x=1, y=0)\<close> and \<open>parametrize(x=2, y=3)\<close>
  produce from it.
\<close>

definition example_function :: "int pyfunction" where
  "example_function = \<lparr>fun_name = ''g'', marks = None, mark_names = None\<rparr>"

definition example_seed :: "int test_context" where
  "example_seed =
     \<lparr>session_context = ''session'', module_ref = ''module'', cls = ''cls'',
      function_ref = FunRef ''g'', file_ref = ''file'', cluster = ''cluster'',
      injected_args = None, ignore = False\<rparr>"

definition example_ctx_1_0 :: "int test_context" where
  "example_ctx_1_0 =
     copy example_seed (inject [(''x'', 1), (''y'', 0)] (FunRef ''g'')) [(''x'', 1), (''y'', 0)]"

definition example_ctx_2_3 :: "int test_context" where
  "example_ctx_2_3 =
     copy example_seed (inject [(''x'', 2), (''y'', 3)] (FunRef ''g'')) [(''x'', 2), (''y'', 3)]"

text \<open>
  A node descriptor that gives only a host name, the account built from it, a cluster
  document of such descriptors, and the cluster built from the document.
\<close>

definition example_node :: "string \<Rightarrow> pyval" where
  "example_node h = PDict [(''hostname'', PStr h)]"

definition example_account :: "string \<Rightarrow> remote_account" where
  "example_account h = RemoteAccount (PStr h) PNone PNone PNone PNone"

definition example_document :: "string list \<Rightarrow> pyval" where
  "example_document hs = PDict [(''nodes'', PList (map example_node hs))]"

definition example_cluster :: "string list \<Rightarrow> json_cluster" where
  "example_cluster hs =
     \<lparr>available_nodes = map example_account hs, in_use_nodes = {}, id_supplier = 0\<rparr>"

section \<open>Dictionaries\<close>

lemma dict_eq_map_of: "dict_eq a b \<longleftrightarrow> map_of a = map_of b"
proof
  assume eq: "dict_eq a b"
  show "map_of a = map_of b"
  proof
    fix k
    show "map_of a k = map_of b k"
    proof (cases "k \<in> set (map fst a) \<union> set (map fst b)")
      case True
      with eq show ?thesis by (simp add: dict_eq_def)
    next
      case False
      then have "map_of a k = None" and "map_of b k = None"
        by (simp_all add: map_of_eq_None_iff)
      then show ?thesis by simp
    qed
  qed
next
  assume "map_of a = map_of b"
  then show "dict_eq a b" by (simp add: dict_eq_def)
qed

lemma dict_set_fresh: "k \<notin> fst ` set d \<Longrightarrow> dict_set k v d = d @ [(k, v)]"
  by (induction d) auto

section \<open>Ignore.apply\<close>

lemma Ignore_apply_Nil:
  "Ignore_apply a seed [] =
     Inl (AssertionError ''ignore annotation is not being applied to any test cases'')"
  by (simp add: Ignore_apply_def)

lemma Ignore_apply_nonempty:
  "cl \<noteq> [] \<Longrightarrow> Ignore_apply a seed cl =
     Inr (map (\<lambda>ctx. ctx\<lparr>ignore := ignore ctx \<or> a = None \<or> args_eq a (injected_args ctx)\<rparr>) cl)"
  by (simp add: Ignore_apply_def)

text \<open>
  Claim C7. Let \<open>a\<close> be the \<open>injected_args\<close> of an \<open>Ignore\<close> mark (\<open>Some\<close> of its keyword
  arguments) or of an \<open>IgnoreAll\<close> mark (\<open>None\<close>, the match-all sentinel). Applied to an
  empty list of descriptors, the mark fails its assertion. Applied to a non-empty list it
  returns a list of the same length in which the ignore flag of every descriptor is true
  exactly when it was true before, or \<open>a\<close> is the sentinel, or \<open>a\<close> equals the arguments
  already injected into that descriptor: in particular the flag of a descriptor that was
  not ignored and does not match stays false. The arguments are equal when both are
  dictionaries with the same keys and the same value for every key; a descriptor without
  injected arguments equals no dictionary.
\<close>

theorem Ignore_apply_sets_ignore_flag:
  "Ignore_apply a seed [] =
     Inl (AssertionError ''ignore annotation is not being applied to any test cases'')
   \<and> (cl \<noteq> [] \<longrightarrow>
        (\<exists>cl'. Ignore_apply a seed cl = Inr cl' \<and> length cl' = length cl \<and>
           (\<forall>i<length cl.
               ignore (cl' ! i) =
                 (ignore (cl ! i) \<or> a = None \<or> args_eq a (injected_args (cl ! i))))))
   \<and> args_eq (Some kw) (Some kw') = (map_of kw = map_of kw')
   \<and> args_eq (Some kw) None = False"
proof (intro conjI impI)
  show "Ignore_apply a seed [] =
     Inl (AssertionError ''ignore annotation is not being applied to any test cases'')"
    by (rule Ignore_apply_Nil)
next
  assume ne: "cl \<noteq> []"
  let ?cl' = "map (\<lambda>ctx. ctx\<lparr>ignore := ignore ctx \<or> a = None
                                    \<or> args_eq a (injected_args ctx)\<rparr>) cl"
  have "Ignore_apply a seed cl = Inr ?cl'"
    using ne by (rule Ignore_apply_nonempty)
  moreover have "length ?cl' = length cl" by simp
  moreover have "\<forall>i<length cl.
      ignore (?cl' ! i) = (ignore (cl ! i) \<or> a = None \<or> args_eq a (injected_args (cl ! i)))"
    by simp
  ultimately show "\<exists>cl'. Ignore_apply a seed cl = Inr cl' \<and> length cl' = length cl \<and>
           (\<forall>i<length cl.
               ignore (cl' ! i) =
                 (ignore (cl ! i) \<or> a = None \<or> args_eq a (injected_args (cl ! i))))"
    by blast
next
  show "args_eq (Some kw) (Some kw') = (map_of kw = map_of kw')"
    by (simp add: dict_eq_map_of)
next
  show "args_eq (Some kw) None = False" by simp
qed

theorem Ignore_apply_sets_ignore_flag_witness:
  "[example_ctx_1_0, example_ctx_2_3] \<noteq> []
   \<and> \<not> ignore example_ctx_1_0 \<and> \<not> ignore example_ctx_2_3
   \<and> \<not> args_eq (Some [(''y'', 3), (''x'', 2)]) (injected_args example_ctx_1_0)
   \<and> args_eq (Some [(''y'', 3), (''x'', 2)]) (injected_args example_ctx_2_3)
   \<and> (\<exists>cl'. Ignore_apply (Some [(''y'', 3), (''x'', 2)]) example_seed
                 [example_ctx_1_0, example_ctx_2_3] = Inr cl'
           \<and> length cl' = 2 \<and> \<not> ignore (cl' ! 0) \<and> ignore (cl' ! 1))"
proof -
  have m: "\<not> args_eq (Some [(''y'', 3), (''x'', 2)]) (injected_args example_ctx_1_0)"
          "args_eq (Some [(''y'', 3), (''x'', 2)]) (injected_args example_ctx_2_3)"
    by (simp_all add: example_ctx_1_0_def example_ctx_2_3_def copy_def dict_eq_def)
  have f: "\<not> ignore example_ctx_1_0" "\<not> ignore example_ctx_2_3"
    by (simp_all add: example_ctx_1_0_def example_ctx_2_3_def copy_def example_seed_def)
  have ne: "[example_ctx_1_0, example_ctx_2_3] \<noteq> []" by simp
  from Ignore_apply_sets_ignore_flag
          [of "Some [(''y'', 3), (''x'', 2)]" example_seed "[example_ctx_1_0, example_ctx_2_3]",
           THEN conjunct2, THEN conjunct1, THEN mp, OF ne]
  obtain cl' where
    r: "Ignore_apply (Some [(''y'', 3), (''x'', 2)]) example_seed
          [example_ctx_1_0, example_ctx_2_3] = Inr cl'"
    and l: "length cl' = length [example_ctx_1_0, example_ctx_2_3]"
    and fl: "\<forall>i<length [example_ctx_1_0, example_ctx_2_3]. ignore (cl' ! i) =
        (ignore ([example_ctx_1_0, example_ctx_2_3] ! i)
         \<or> Some [(''y'', 3), (''x'', 2)] = None
         \<or> args_eq (Some [(''y'', 3), (''x'', 2)])
              (injected_args ([example_ctx_1_0, example_ctx_2_3] ! i)))"
    by blast
  from fl [rule_format, of 0] m f have i0: "\<not> ignore (cl' ! 0)" by simp
  from fl [rule_format, of 1] m f have i1: "ignore (cl' ! 1)" by simp
  from l have l2: "length cl' = 2" by simp
  from r l2 i0 i1
  have "\<exists>cl'. Ignore_apply (Some [(''y'', 3), (''x'', 2)]) example_seed
                 [example_ctx_1_0, example_ctx_2_3] = Inr cl'
           \<and> length cl' = 2 \<and> \<not> ignore (cl' ! 0) \<and> ignore (cl' ! 1)"
    by blast
  with ne m f show ?thesis by (intro conjI)
qed

text \<open>
  Claim C10. On a non-empty list \<open>Ignore.apply\<close> returns a list of the same length whose
  descriptor at every position is the descriptor that was at that position with at most
  its ignore flag changed: the function and the injected arguments are the same, and a
  flag that was true is still true. On the empty list it returns nothing (it raises), so
  it never adds, removes or reorders descriptors.
\<close>

theorem Ignore_apply_frame:
  "(cl \<noteq> [] \<longrightarrow>
      (\<exists>cl'. Ignore_apply a seed cl = Inr cl' \<and> length cl' = length cl \<and>
         (\<forall>i<length cl. cl' ! i = (cl ! i)\<lparr>ignore := ignore (cl' ! i)\<rparr>
             \<and> function_ref (cl' ! i) = function_ref (cl ! i)
             \<and> injected_args (cl' ! i) = injected_args (cl ! i)
             \<and> (ignore (cl ! i) \<longrightarrow> ignore (cl' ! i)))))
   \<and> (\<forall>cl'. Ignore_apply a seed cl = Inr cl' \<longrightarrow> cl \<noteq> [])"
proof (intro conjI impI allI)
  assume ne: "cl \<noteq> []"
  let ?cl' = "map (\<lambda>ctx. ctx\<lparr>ignore := ignore ctx \<or> a = None
                                    \<or> args_eq a (injected_args ctx)\<rparr>) cl"
  have "Ignore_apply a seed cl = Inr ?cl'"
    using ne by (rule Ignore_apply_nonempty)
  moreover have "length ?cl' = length cl" by simp
  moreover have "\<forall>i<length cl. ?cl' ! i = (cl ! i)\<lparr>ignore := ignore (?cl' ! i)\<rparr>
             \<and> function_ref (?cl' ! i) = function_ref (cl ! i)
             \<and> injected_args (?cl' ! i) = injected_args (cl ! i)
             \<and> (ignore (cl ! i) \<longrightarrow> ignore (?cl' ! i))"
    by simp
  ultimately show "\<exists>cl'. Ignore_apply a seed cl = Inr cl' \<and> length cl' = length cl \<and>
         (\<forall>i<length cl. cl' ! i = (cl ! i)\<lparr>ignore := ignore (cl' ! i)\<rparr>
             \<and> function_ref (cl' ! i) = function_ref (cl ! i)
             \<and> injected_args (cl' ! i) = injected_args (cl ! i)
             \<and> (ignore (cl ! i) \<longrightarrow> ignore (cl' ! i)))"
    by blast
next
  fix cl'
  assume "Ignore_apply a seed cl = Inr cl'"
  then show "cl \<noteq> []" by (auto simp: Ignore_apply_Nil)
qed

theorem Ignore_apply_frame_witness:
  "[example_ctx_1_0\<lparr>ignore := True\<rparr>, example_ctx_2_3] \<noteq> []
   \<and> ignore ([example_ctx_1_0\<lparr>ignore := True\<rparr>, example_ctx_2_3] ! 0)
   \<and> (\<exists>cl'. Ignore_apply (Some [(''x'', 2), (''y'', 3)]) example_seed
                 [example_ctx_1_0\<lparr>ignore := True\<rparr>, example_ctx_2_3] = Inr cl'
           \<and> length cl' = 2
           \<and> cl' ! 0 = example_ctx_1_0\<lparr>ignore := True\<rparr>
           \<and> cl' ! 1 = example_ctx_2_3\<lparr>ignore := True\<rparr>)"
  using Ignore_apply_frame
          [of "[example_ctx_1_0\<lparr>ignore := True\<rparr>, example_ctx_2_3]"
              "Some [(''x'', 2), (''y'', 3)]" example_seed]
  by (auto simp: Ignore_apply_def example_ctx_1_0_def example_ctx_2_3_def copy_def dict_eq_def)

section \<open>cartesian_product_dict and Matrix.apply\<close>

lemma fold_step_product:
  "fold (\<lambda>pool result. concat (map (\<lambda>x. map (\<lambda>y. x @ [y]) pool) result)) pools res
     = concat (map (\<lambda>x. map ((@) x) (product_lists pools)) res)"
proof (induction pools arbitrary: res)
  case Nil
  show ?case by (induction res) simp_all
next
  case (Cons p ps)
  have one: "concat (map (\<lambda>y. map ((@) (x @ [y])) (product_lists ps)) p)
        = map ((@) x) (concat (map (\<lambda>y. map (Cons y) (product_lists ps)) p))" for x
    by (induction p) (simp_all add: comp_def)
  show ?case
    unfolding fold_simps Cons.IH
    by (induction res) (simp_all add: one comp_def)
qed

lemma map_append_Nil: "map ((@) []) xss = xss"
  by (induction xss) simp_all

text \<open>
  The documented program of \<open>itertools.product\<close> enumerates the product in the
  lexicographic order of \<open>product_lists\<close>, and its last pool varies fastest.
\<close>

lemma itertools_product_eq: "itertools_product pools = product_lists pools"
  by (simp add: itertools_product_def fold_step_product map_append_Nil)

lemma itertools_product_snoc:
  "itertools_product (pools @ [pool]) =
     concat (map (\<lambda>x. map (\<lambda>y. x @ [y]) pool) (itertools_product pools))"
  by (simp add: itertools_product_def)

lemma product_lists_snoc:
  "product_lists (pools @ [pool]) =
     concat (map (\<lambda>x. map (\<lambda>y. x @ [y]) pool) (product_lists pools))"
  using itertools_product_snoc [of pools pool] by (simp add: itertools_product_eq)

lemma new_dict_take:
  "distinct ks \<Longrightarrow> n \<le> length ks \<Longrightarrow> length v = length ks \<Longrightarrow>
   fold (\<lambda>i d. dict_set (ks ! i) (v ! i) d) [0..<n] [] = zip (take n ks) (take n v)"
proof (induction n)
  case 0
  show ?case by simp
next
  case (Suc n)
  then have n: "n < length ks" "n < length v" by simp_all
  have fresh: "ks ! n \<notin> fst ` set (zip (take n ks) (take n v))"
  proof
    assume "ks ! n \<in> fst ` set (zip (take n ks) (take n v))"
    then have "ks ! n \<in> set (take n ks)" by (auto dest: set_zip_leftD)
    then obtain j where "j < n" "ks ! j = ks ! n"
      using n by (auto simp: in_set_conv_nth)
    with Suc.prems(1) n show False by (simp add: nth_eq_iff_index_eq)
  qed
  show ?case
    using Suc n fresh by (simp add: dict_set_fresh take_Suc_conv_app_nth)
qed

lemma new_dict_zip:
  "distinct ks \<Longrightarrow> length v = length ks \<Longrightarrow> new_dict ks v = zip ks v"
  using new_dict_take [of ks "length ks" v] by (simp add: new_dict_def)

lemma cartesian_product_dict_zip:
  assumes "distinct (map fst d)"
  shows "cartesian_product_dict d = map (zip (map fst d)) (product_lists (map snd d))"
proof -
  have "new_dict (map fst d) v = zip (map fst d) v"
    if "v \<in> set (product_lists (map snd d))" for v
    using that assms by (simp add: new_dict_zip in_set_product_lists_length)
  then show ?thesis
    by (simp add: cartesian_product_dict_def itertools_product_eq)
qed

lemma cartesian_product_dict_snoc:
  assumes "distinct (map fst (d0 @ [(k, ys)]))"
  shows "cartesian_product_dict (d0 @ [(k, ys)]) =
     concat (map (\<lambda>p. map (\<lambda>y. p @ [(k, y)]) ys) (cartesian_product_dict d0))"
proof -
  from assms have d0: "distinct (map fst d0)" by simp
  have z: "map (zip (map fst d0 @ [k])) (map (\<lambda>y. x @ [y]) ys)
             = map (\<lambda>y. zip (map fst d0) x @ [(k, y)]) ys"
    if "x \<in> set (product_lists (map snd d0))" for x
  proof -
    from that have "length x = length (map fst d0)"
      by (simp add: in_set_product_lists_length)
    then show ?thesis by (simp add: comp_def)
  qed
  have "cartesian_product_dict (d0 @ [(k, ys)])
          = map (zip (map fst d0 @ [k])) (product_lists (map snd d0 @ [ys]))"
    using cartesian_product_dict_zip [OF assms] by simp
  also have "\<dots> = concat (map (\<lambda>x. map (zip (map fst d0 @ [k])) (map (\<lambda>y. x @ [y]) ys))
                          (product_lists (map snd d0)))"
    by (simp add: product_lists_snoc map_concat comp_def)
  also have "\<dots> = concat (map (\<lambda>x. map (\<lambda>y. zip (map fst d0) x @ [(k, y)]) ys)
                          (product_lists (map snd d0)))"
    using z by (simp cong: map_cong)
  also have "\<dots> = concat (map (\<lambda>p. map (\<lambda>y. p @ [(k, y)]) ys) (cartesian_product_dict d0))"
    by (simp add: cartesian_product_dict_zip [OF d0] comp_def)
  finally show ?thesis .
qed

lemma fold_insert_front: "fold (\<lambda>a l. f a # l) xs cl = rev (map f xs) @ cl"
  by (induction xs arbitrary: cl) simp_all

lemma Matrix_apply_rev:
  "Matrix_apply d seed cl =
     rev (map (\<lambda>args. copy seed (inject args (function_ref seed)) args)
              (cartesian_product_dict d)) @ cl"
  by (simp add: Matrix_apply_def fold_insert_front)

text \<open>
  Claim C3, amended. Let \<open>d\<close> list the parameters of a \<open>Matrix\<close> mark with their candidate
  values, in the order in which the dictionary of the mark enumerates its keys (the keys
  of a dictionary are distinct); this is the order of the hash table, not the order in
  which the parameters were declared. One call of \<open>Matrix.apply\<close> generates the
  combinations in the lexicographic order of the cartesian product of the value lists
  taken in that order; the parameter that the dictionary enumerates last varies fastest:
  when \<open>(k, ys)\<close> is the last parameter, every combination of the parameters before it is
  extended with the values \<open>ys\<close> in turn before the next combination is. The call puts
  one descriptor for each combination in front of the list it was given, so that these
  descriptors stand in the returned list in the reverse of the generation order, before
  the descriptors that were there.
\<close>

theorem Matrix_apply_reverse_generation_order:
  assumes "distinct (map fst d)"
  shows "cartesian_product_dict d = map (zip (map fst d)) (product_lists (map snd d))
    \<and> (d = d0 @ [(k, ys)] \<longrightarrow>
          cartesian_product_dict d =
            concat (map (\<lambda>p. map (\<lambda>y. p @ [(k, y)]) ys) (cartesian_product_dict d0)))
    \<and> Matrix_apply d seed cl =
          rev (map (\<lambda>args. copy seed (inject args (function_ref seed)) args)
                   (cartesian_product_dict d)) @ cl"
proof (intro conjI impI)
  show "cartesian_product_dict d = map (zip (map fst d)) (product_lists (map snd d))"
    by (rule cartesian_product_dict_zip [OF assms])
next
  assume "d = d0 @ [(k, ys)]"
  with assms show "cartesian_product_dict d =
      concat (map (\<lambda>p. map (\<lambda>y. p @ [(k, y)]) ys) (cartesian_product_dict d0))"
    using cartesian_product_dict_snoc [of d0 k ys] by simp
next
  show "Matrix_apply d seed cl =
      rev (map (\<lambda>args. copy seed (inject args (function_ref seed)) args)
               (cartesian_product_dict d)) @ cl"
    by (rule Matrix_apply_rev)
qed

text \<open>
  The dictionary of \<open>matrix(x=[1, 2], y=[-1, -2])\<close> enumerates \<open>y\<close> before \<open>x\<close>.
\<close>

lemma hash_slot_x: "hash_slot ''x'' = 1"
  by (simp add: hash_slot_def string_hash_def)

lemma hash_slot_y: "hash_slot ''y'' = 0"
  by (simp add: hash_slot_def string_hash_def)

lemma kwargs_dict_x_y:
  "kwargs_dict [(''x'', vx), (''y'', vy)] = Some [(''y'', vy), (''x'', vx)]"
  by (simp add: kwargs_dict_def hash_slot_x hash_slot_y upt_rec)

theorem Matrix_apply_reverse_generation_order_witness:
  "kwargs_dict [(''x'', [1, 2::int]), (''y'', [-1, -2])] = Some [(''y'', [-1, -2]), (''x'', [1, 2])]
   \<and> distinct (map fst [(''y'', [-1, -2::int]), (''x'', [1, 2])])
   \<and> [(''y'', [-1, -2::int]), (''x'', [1, 2])] = [(''y'', [-1, -2])] @ [(''x'', [1, 2])]
   \<and> cartesian_product_dict [(''y'', [-1, -2::int]), (''x'', [1, 2])] =
       [[(''y'', -1), (''x'', 1)], [(''y'', -1), (''x'', 2)],
        [(''y'', -2), (''x'', 1)], [(''y'', -2), (''x'', 2)]]
   \<and> map injected_args
         (Matrix_apply [(''y'', [-1, -2::int]), (''x'', [1, 2])] example_seed [example_seed]) =
       [Some [(''y'', -2), (''x'', 2)], Some [(''y'', -2), (''x'', 1)],
        Some [(''y'', -1), (''x'', 2)], Some [(''y'', -1), (''x'', 1)], None]"
proof -
  have h: "distinct (map fst [(''y'', [-1, -2::int]), (''x'', [1, 2])])" by simp
  from Matrix_apply_reverse_generation_order
         [OF h, of "[(''y'', [-1, -2])]" "''x''" "[1, 2]" example_seed "[example_seed]"]
       kwargs_dict_x_y [of "[1, 2::int]" "[-1, -2]"]
  show ?thesis by (simp add: copy_def example_seed_def)
qed

text \<open>
  The claim as stated fails for \<open>matrix(x=[1, 2], y=[-1, -2])\<close>: the dictionary of the mark
  enumerates \<open>y\<close> before \<open>x\<close>, so that the parameter declared first, \<open>x\<close>, varies fastest;
  the second combination generated binds \<open>x\<close> to 2 and \<open>y\<close> to -1, where the order with
  the last-declared parameter varying fastest has \<open>x\<close> bound to 1 and \<open>y\<close> to -2.
\<close>

theorem Matrix_apply_last_declared_counterexample:
  "kwargs_dict [(''x'', [1, 2::int]), (''y'', [-1, -2])] = Some [(''y'', [-1, -2]), (''x'', [1, 2])]
   \<and> cartesian_product_dict [(''y'', [-1, -2::int]), (''x'', [1, 2])] =
       [[(''y'', -1), (''x'', 1)], [(''y'', -1), (''x'', 2)],
        [(''y'', -2), (''x'', 1)], [(''y'', -2), (''x'', 2)]]
   \<and> claimed_generation_order [(''x'', [1, 2::int]), (''y'', [-1, -2])] =
       [[(''x'', 1), (''y'', -1)], [(''x'', 1), (''y'', -2)],
        [(''x'', 2), (''y'', -1)], [(''x'', 2), (''y'', -2)]]
   \<and> \<not> list_all2 dict_eq
         (cartesian_product_dict [(''y'', [-1, -2::int]), (''x'', [1, 2])])
         (claimed_generation_order [(''x'', [1, 2::int]), (''y'', [-1, -2])])"
  by (simp add: kwargs_dict_x_y claimed_generation_order_def cartesian_product_dict_def
        itertools_product_def new_dict_def dict_eq_def)

section \<open>MarkedFunctionExpander.expand\<close>

lemma marks_mark:
  "marks (mark f m) = Some ((case marks f of Some l \<Rightarrow> l | None \<Rightarrow> []) @ [m])"
  by (simp add: mark_def split: option.splits)

lemma marks_fold_mark:
  "marks (fold (\<lambda>m g. mark g m) ms f) =
    (case ms of [] \<Rightarrow> marks f
     | _ \<Rightarrow> Some ((case marks f of Some l \<Rightarrow> l | None \<Rightarrow> []) @ ms))"
  by (induction ms arbitrary: f) (simp_all add: marks_mark split: list.splits)

text \<open>
  After the branch for explicit test parameters, the marks of the function are the new
  \<open>Parametrize\<close> mark followed by the marks that were neither parametrize nor matrix
  marks, in their order.
\<close>

lemma marks_override_marks:
  "marks (override_marks f tp) =
     Some (Parametrize tp #
           (case marks f of
              Some ms \<Rightarrow> filter (\<lambda>m. \<not> is_parametrize_mark m) ms
            | None \<Rightarrow> []))"
  by (simp add: override_marks_def Let_def marks_fold_mark marks_mark clear_marks_def
           split: option.splits list.splits)

lemma unpack_pair_Inr:
  "unpack_pair v = Inr (s, w) \<Longrightarrow> \<exists>b. v = CtxList [s, b] \<and> w = CtxObj b"
  by (cases v rule: unpack_pair.cases) auto

text \<open>
  Claim C1. For a function of any name without marks, decorated with one matrix mark of
  any parameters, the call \<open>expand()\<close> never returns a list of descriptors:
  \<open>Matrix.apply\<close> returns the list of the descriptors of the combinations, and the
  assignment that unpacks this list into \<open>seed_context\<close> and \<open>context_list\<close> raises
  \<open>ValueError\<close>, or, for a list of exactly two descriptors, binds the second of them to
  \<open>context_list\<close>. For \<open>matrix(x=[1, 2], y=[-1, -2])\<close> the call does not return four
  descriptors but raises \<open>ValueError\<close>.
\<close>

theorem expand_matrix_example_raises:
  "snd (expand (MarkedFunctionExpander
                  (matrix d \<lparr>fun_name = n, marks = None, mark_names = None\<rparr>) seed) None)
     \<noteq> Inr (CtxList l)
   \<and> snd (expand (MarkedFunctionExpander
                  (matrix [(''x'', [1, 2::int]), (''y'', [-1, -2])]
                          \<lparr>fun_name = n, marks = None, mark_names = None\<rparr>) seed') None)
     = Inl (ValueError ''too many values to unpack'' None)"
proof
  let ?r = "unpack_pair (CtxList (Matrix_apply d seed []))"
  show "snd (expand (MarkedFunctionExpander
                  (matrix d \<lparr>fun_name = n, marks = None, mark_names = None\<rparr>) seed) None)
     \<noteq> Inr (CtxList l)"
  proof (cases ?r)
    case (Inl e)
    then show ?thesis
      by (simp add: expand_def MarkedFunctionExpander_def matrix_def mark_def
            parametrized_def marked_def)
  next
    case (Inr p)
    obtain s w where p: "p = (s, w)" by (cases p)
    with Inr obtain b where "w = CtxObj b" using unpack_pair_Inr by blast
    with Inr p show ?thesis
      by (simp add: expand_def MarkedFunctionExpander_def matrix_def mark_def
            parametrized_def marked_def)
  qed
next
  show "snd (expand (MarkedFunctionExpander
                  (matrix [(''x'', [1, 2::int]), (''y'', [-1, -2])]
                          \<lparr>fun_name = n, marks = None, mark_names = None\<rparr>) seed') None)
     = Inl (ValueError ''too many values to unpack'' None)"
    by (simp add: expand_def MarkedFunctionExpander_def matrix_def mark_def parametrized_def
          marked_def Matrix_apply_def cartesian_product_dict_def itertools_product_def
          new_dict_def)
qed

text \<open>
  Claim C2. For every function that carries a matrix or a parametrize mark, whatever
  other marks it carries, \<open>expand(test_parameters)\<close> with explicit parameters does not
  return one descriptor: the working list starts empty, \<open>Parametrize.apply\<close> returns
  the list of the one descriptor bound to the parameters, and the assignment that unpacks
  this list into two targets raises \<open>ValueError\<close> before any ignore mark is applied.
\<close>

theorem expand_test_parameters_raises:
  assumes "parametrized f"
  shows "snd (expand (MarkedFunctionExpander f seed) (Some tp)) =
           Inl (ValueError ''need more than 1 value to unpack'' None)"
  using assms
  by (simp add: expand_def MarkedFunctionExpander_def marks_override_marks
        Parametrize_apply_def)

theorem expand_test_parameters_raises_witness:
  "parametrized (ignore_all (matrix [(''x'', [1, 2::int])] example_function))
   \<and> snd (expand (MarkedFunctionExpander
                    (ignore_all (matrix [(''x'', [1, 2::int])] example_function))
                    example_seed)
                 (Some [(''x'', 9)])) =
       Inl (ValueError ''need more than 1 value to unpack'' None)"
proof -
  have h: "parametrized (ignore_all (matrix [(''x'', [1, 2::int])] example_function))"
    by (simp add: parametrized_def marked_def ignore_all_def matrix_def mark_def
          example_function_def)
  from expand_test_parameters_raises [OF h, of example_seed "[(''x'', 9)]"] h
  show ?thesis by simp
qed

section \<open>The loop of alloc\<close>

lemma alloc_loop_Inr:
  "alloc_loop n c res = (c', Inr slots) \<Longrightarrow>
     n \<le> length (available_nodes c)
     \<and> (\<forall>a \<in> set (take n (available_nodes c)). account_hashable a)
     \<and> c' = c\<lparr>available_nodes := drop n (available_nodes c),
              in_use_nodes := account_key ` set (take n (available_nodes c)) \<union> in_use_nodes c,
              id_supplier := id_supplier c + int n\<rparr>
     \<and> map account slots = map account res @ take n (available_nodes c)
     \<and> map slot_id slots = map slot_id res @ map (\<lambda>i. id_supplier c + int i) [0..<n]"
proof (induction n arbitrary: c res)
  case 0
  then show ?case by simp
next
  case (Suc n)
  from Suc.prems obtain node rest where av: "available_nodes c = node # rest"
    by (cases "available_nodes c") auto
  from Suc.prems av have h: "account_hashable node"
    by (auto simp: Let_def split: if_splits)
  let ?c1 = "c\<lparr>available_nodes := rest,
                in_use_nodes := insert (account_key node) (in_use_nodes c),
                id_supplier := id_supplier c + 1\<rparr>"
  from Suc.prems av h
  have step: "alloc_loop n ?c1 (res @ [\<lparr>account = node, slot_id = id_supplier c\<rparr>])
                = (c', Inr slots)"
    by (simp add: Let_def)
  note ih = Suc.IH [OF step]
  have m: "map (\<lambda>i. id_supplier c + int i) [0..<Suc n]
             = id_supplier c # map (\<lambda>i. id_supplier c + 1 + int i) [0..<n]"
    by (simp add: upt_conv_Cons map_Suc_upt [symmetric] del: upt_Suc)
  from ih av h m show ?case by (simp del: upt_Suc)
qed

lemma alloc_loop_succeeds:
  "n \<le> length (available_nodes c) \<Longrightarrow>
   \<forall>a \<in> set (take n (available_nodes c)). account_hashable a \<Longrightarrow>
   \<exists>c' slots. alloc_loop n c res = (c', Inr slots)"
proof (induction n arbitrary: c res)
  case 0
  then show ?case by simp
next
  case (Suc n)
  then obtain node rest where av: "available_nodes c = node # rest"
    by (cases "available_nodes c") auto
  with Suc.prems show ?case
    by (simp add: Let_def Suc.IH)
qed

lemma alloc_Inr:
  assumes "alloc c n = (c', Inr slots)"
  shows "n \<le> int (length (available_nodes c))"
    and "c' = c\<lparr>available_nodes := drop (nat n) (available_nodes c),
              in_use_nodes :=
                account_key ` set (take (nat n) (available_nodes c)) \<union> in_use_nodes c,
              id_supplier := id_supplier c + int (nat n)\<rparr>"
    and "map account slots = take (nat n) (available_nodes c)"
    and "map slot_id slots = map (\<lambda>i. id_supplier c + int i) [0..<nat n]"
  using assms alloc_loop_Inr [of "nat n" c "[]" c' slots]
  by (auto simp: alloc_def num_available_nodes_def split: if_splits)

lemma alloc_Inl_exhausted:
  "int (num_available_nodes c) < n \<Longrightarrow>
   alloc c n = (c, Inl (RuntimeError
      (alloc_err_msg (len c) n (card (in_use_nodes c)) (num_available_nodes c))))"
  by (simp add: alloc_def)

lemma str_nat_digit: "n < 10 \<Longrightarrow> str_nat n = [''0123456789'' ! n]"
  by (simp add: str_nat.simps)

section \<open>The size of the cluster\<close>

lemma alloc_preserves:
  assumes "cluster_inv c"
  shows "cluster_inv (fst (alloc c n)) \<and> len (fst (alloc c n)) = len c"
proof (cases "int (num_available_nodes c) < n")
  case True
  with assms show ?thesis by (simp add: alloc_def)
next
  case False
  let ?k = "nat n"
  let ?av = "available_nodes c"
  from False have le: "?k \<le> length ?av" by (simp add: num_available_nodes_def)
  from assms have "\<forall>a \<in> set (take ?k ?av). account_hashable a"
    by (auto simp: cluster_inv_def dest: in_set_takeD)
  with le obtain c' slots where run: "alloc_loop ?k c [] = (c', Inr slots)"
    using alloc_loop_succeeds [of ?k c "[]"] by blast
  with False have al: "alloc c n = (c', Inr slots)" by (simp add: alloc_def)
  from alloc_loop_Inr [OF run]
  have c': "c' = c\<lparr>available_nodes := drop ?k ?av,
                    in_use_nodes := account_key ` set (take ?k ?av) \<union> in_use_nodes c,
                    id_supplier := id_supplier c + int ?k\<rparr>" by simp
  from assms have d: "distinct (map account_key ?av)"
    and disj: "account_key ` set ?av \<inter> in_use_nodes c = {}"
    and fin: "finite (in_use_nodes c)" and hash: "\<forall>a \<in> set ?av. account_hashable a"
    by (simp_all add: cluster_inv_def)
  from d have "distinct (map account_key (take ?k ?av) @ map account_key (drop ?k ?av))"
    by (simp add: map_append [symmetric] del: map_append)
  then have dt: "distinct (map account_key (take ?k ?av))"
    and dd: "distinct (map account_key (drop ?k ?av))"
    and td: "account_key ` set (take ?k ?av) \<inter> account_key ` set (drop ?k ?av) = {}"
    by simp_all
  have sub: "set (take ?k ?av) \<subseteq> set ?av" "set (drop ?k ?av) \<subseteq> set ?av"
    by (simp_all add: set_take_subset set_drop_subset)
  have disj': "account_key ` set (drop ?k ?av)
                 \<inter> (account_key ` set (take ?k ?av) \<union> in_use_nodes c) = {}"
    using td disj sub by blast
  have hash': "\<forall>a \<in> set (drop ?k ?av). account_hashable a"
    using hash sub by blast
  have inv: "cluster_inv c'"
    unfolding cluster_inv_def c' using dd disj' fin hash' by simp
  have "card (account_key ` set (take ?k ?av) \<union> in_use_nodes c)
          = card (account_key ` set (take ?k ?av)) + card (in_use_nodes c)"
    using fin disj sub by (intro card_Un_disjoint) auto
  moreover have "card (account_key ` set (take ?k ?av)) = ?k"
    using distinct_card [OF dt] le by simp
  ultimately have "len c' = len c"
    using le by (simp add: len_def c')
  with inv al show ?thesis by simp
qed

lemma free_single_preserves:
  assumes "cluster_inv c"
  shows "cluster_inv (fst (free_single c s)) \<and> len (fst (free_single c s)) = len c"
proof (cases "account_hashable (account s) \<and> account_key (account s) \<in> in_use_nodes c")
  case False
  with assms show ?thesis by (auto simp: free_single_def)
next
  case True
  from assms have d: "distinct (map account_key (available_nodes c))"
    and disj: "account_key ` set (available_nodes c) \<inter> in_use_nodes c = {}"
    and fin: "finite (in_use_nodes c)"
    and hash: "\<forall>a \<in> set (available_nodes c). account_hashable a"
    by (simp_all add: cluster_inv_def)
  from True disj
  have notin: "account_key (account s) \<notin> account_key ` set (available_nodes c)" by auto
  from True fin have "card (in_use_nodes c) > 0" by (auto simp: card_gt_0_iff)
  with True fin have "len (fst (free_single c s)) = len c"
    by (simp add: free_single_def len_def)
  moreover have "cluster_inv (fst (free_single c s))"
    using True d disj fin hash notin by (auto simp: free_single_def cluster_inv_def)
  ultimately show ?thesis by simp
qed

lemma do_calls_preserves:
  "cluster_inv c \<Longrightarrow> cluster_inv (do_calls calls c) \<and> len (do_calls calls c) = len c"
proof (induction calls arbitrary: c)
  case Nil
  then show ?case by (simp add: do_calls_def)
next
  case (Cons x xs)
  have step: "cluster_inv (do_call x c) \<and> len (do_call x c) = len c"
    using Cons.prems by (cases x) (simp_all add: alloc_preserves free_single_preserves)
  with Cons.IH [of "do_call x c"] show ?case by (simp add: do_calls_def)
qed

lemma node_accounts_length: "node_accounts ninfos = Inr as \<Longrightarrow> length as = length ninfos"
  by (induction ninfos arbitrary: as) (auto split: sum.splits)

lemma JsonCluster_Inr_nodes:
  assumes "JsonCluster cluster_json loaded = Inr c"
      and "(if cluster_json = PNone then loaded else Inr cluster_json) = Inr document"
      and "getitem document ''nodes'' = Inr (PList ninfos)"
  shows "length (available_nodes c) = length ninfos \<and> in_use_nodes c = {} \<and> id_supplier c = 0"
proof -
  from assms(1,2) obtain accounts where
    t: "try_node_accounts document = Inr accounts"
    and c: "c = \<lparr>available_nodes = accounts, in_use_nodes = {}, id_supplier = 0\<rparr>"
    by (auto simp: JsonCluster_def split: sum.splits)
  from t assms(3) have "length accounts = length ninfos"
    by (auto simp: try_node_accounts_def split: sum.splits dest: node_accounts_length)
  with c show ?thesis by simp
qed

lemma example_JsonCluster:
  "JsonCluster (example_document hs) loaded = Inr (example_cluster hs)"
proof -
  have "node_accounts (map example_node hs) = Inr (map example_account hs)"
    by (induction hs)
       (simp_all add: example_node_def example_account_def node_account_def)
  moreover have "map resolve_ip (map example_account hs) = map example_account hs"
    by (simp add: resolve_ip_def example_account_def RemoteAccount_def
          externally_routable_ip_hook_def)
  ultimately show ?thesis
    by (simp add: JsonCluster_def try_node_accounts_def example_document_def
          example_cluster_def)
qed

lemma example_JsonCluster_file:
  "JsonCluster PNone (Inr (example_document hs)) = Inr (example_cluster hs)"
  using example_JsonCluster [of hs "Inr PNone"]
  by (simp add: JsonCluster_def example_document_def)

lemma account_key_example: "account_key (example_account h) = example_account h"
  by (simp add: account_key_def example_account_def RemoteAccount_def)

text \<open>
  Claim C4, amended. Let a cluster be built from a document, given in memory or read from
  the cluster file, whose \<open>nodes\<close> are a list of N descriptors, and let the accounts built
  from them be hashable and pairwise different under the equality of accounts, which
  takes a boolean for the integer it is. Then after any sequence of calls of \<open>alloc\<close> and
  \<open>free_single\<close>, with any arguments, failed calls included, the size of the cluster is
  N, and the number of available nodes plus the number of nodes in use is N.
\<close>

theorem JsonCluster_size_invariant:
  assumes "JsonCluster cluster_json loaded = Inr c"
      and "(if cluster_json = PNone then loaded else Inr cluster_json) = Inr document"
      and "getitem document ''nodes'' = Inr (PList ninfos)"
      and "distinct (map account_key (available_nodes c))"
      and "\<forall>a \<in> set (available_nodes c). account_hashable a"
  shows "len (do_calls calls c) = length ninfos
       \<and> num_available_nodes (do_calls calls c) + card (in_use_nodes (do_calls calls c))
           = length ninfos"
proof -
  from JsonCluster_Inr_nodes [OF assms(1,2,3)]
  have init: "length (available_nodes c) = length ninfos" "in_use_nodes c = {}" by simp_all
  with assms(4,5) have "cluster_inv c" by (simp add: cluster_inv_def)
  from do_calls_preserves [OF this, of calls] init
  show ?thesis by (simp add: len_def num_available_nodes_def)
qed

theorem JsonCluster_size_invariant_witness:
  "JsonCluster PNone (Inr (example_document [''A'', ''B'', ''C'']))
     = Inr (example_cluster [''A'', ''B'', ''C''])
   \<and> (if PNone = PNone then Inr (example_document [''A'', ''B'', ''C''])
       else (Inr PNone :: exn + pyval))
       = Inr (example_document [''A'', ''B'', ''C''])
   \<and> getitem (example_document [''A'', ''B'', ''C'']) ''nodes''
       = Inr (PList (map example_node [''A'', ''B'', ''C'']))
   \<and> distinct (map account_key (available_nodes (example_cluster [''A'', ''B'', ''C''])))
   \<and> list_all account_hashable (available_nodes (example_cluster [''A'', ''B'', ''C'']))
   \<and> len (do_calls [Alloc 2, Free_single \<lparr>account = example_account ''A'', slot_id = 0\<rparr>,
                     Alloc 5, Alloc 2, Free_single \<lparr>account = example_account ''A'', slot_id = 7\<rparr>]
                    (example_cluster [''A'', ''B'', ''C''])) = 3
   \<and> num_available_nodes
         (do_calls [Alloc 2, Free_single \<lparr>account = example_account ''A'', slot_id = 0\<rparr>,
                    Alloc 5, Alloc 2, Free_single \<lparr>account = example_account ''A'', slot_id = 7\<rparr>]
                   (example_cluster [''A'', ''B'', ''C'']))
     + card (in_use_nodes
         (do_calls [Alloc 2, Free_single \<lparr>account = example_account ''A'', slot_id = 0\<rparr>,
                    Alloc 5, Alloc 2, Free_single \<lparr>account = example_account ''A'', slot_id = 7\<rparr>]
                   (example_cluster [''A'', ''B'', ''C'']))) = 3"
proof -
  have h1: "JsonCluster PNone (Inr (example_document [''A'', ''B'', ''C'']))
              = Inr (example_cluster [''A'', ''B'', ''C''])"
    by (rule example_JsonCluster_file)
  have h2: "(if PNone = PNone then Inr (example_document [''A'', ''B'', ''C''])
             else (Inr PNone :: exn + pyval))
              = Inr (example_document [''A'', ''B'', ''C''])"
    by simp
  have h3: "getitem (example_document [''A'', ''B'', ''C'']) ''nodes''
              = Inr (PList (map example_node [''A'', ''B'', ''C'']))"
    by (simp add: example_document_def)
  have h4: "distinct (map account_key (available_nodes (example_cluster [''A'', ''B'', ''C''])))"
    by (simp add: example_cluster_def account_key_example)
       (simp add: example_account_def RemoteAccount_def)
  have h5: "\<forall>a \<in> set (available_nodes (example_cluster [''A'', ''B'', ''C''])).
              account_hashable a"
    by (simp add: example_cluster_def example_account_def RemoteAccount_def
          account_hashable_def)
  from h5 have h5': "list_all account_hashable
                       (available_nodes (example_cluster [''A'', ''B'', ''C'']))"
    by (simp add: list_all_iff)
  from JsonCluster_size_invariant [OF h1 h2 h3 h4 h5]
  have "len (do_calls [Alloc 2, Free_single \<lparr>account = example_account ''A'', slot_id = 0\<rparr>,
                     Alloc 5, Alloc 2, Free_single \<lparr>account = example_account ''A'', slot_id = 7\<rparr>]
                    (example_cluster [''A'', ''B'', ''C''])) = 3
   \<and> num_available_nodes
         (do_calls [Alloc 2, Free_single \<lparr>account = example_account ''A'', slot_id = 0\<rparr>,
                    Alloc 5, Alloc 2, Free_single \<lparr>account = example_account ''A'', slot_id = 7\<rparr>]
                   (example_cluster [''A'', ''B'', ''C'']))
     + card (in_use_nodes
         (do_calls [Alloc 2, Free_single \<lparr>account = example_account ''A'', slot_id = 0\<rparr>,
                    Alloc 5, Alloc 2, Free_single \<lparr>account = example_account ''A'', slot_id = 7\<rparr>]
                   (example_cluster [''A'', ''B'', ''C'']))) = 3"
    by simp
  with h1 h2 h3 h4 h5' show ?thesis by (intro conjI) simp_all
qed

text \<open>
  The claim as stated fails for a document that lists the same node twice: the two
  accounts are equal, the set of accounts in use holds one of them after both are
  allocated, and the size of the cluster of two descriptors is then one. It fails in the
  same way for two descriptors with the host names \<open>1\<close> and \<open>true\<close>, whose accounts are
  equal.
\<close>

theorem JsonCluster_size_counterexample:
  "JsonCluster (example_document [''a'', ''a'']) (Inr PNone) = Inr (example_cluster [''a'', ''a''])
   \<and> length (map example_node [''a'', ''a'']) = 2
   \<and> snd (alloc (example_cluster [''a'', ''a'']) 2) =
       Inr [\<lparr>account = example_account ''a'', slot_id = 0\<rparr>,
            \<lparr>account = example_account ''a'', slot_id = 1\<rparr>]
   \<and> len (do_calls [Alloc 2] (example_cluster [''a'', ''a''])) = 1
   \<and> JsonCluster (PDict [(''nodes'', PList [PDict [(''hostname'', PInt 1)],
                                              PDict [(''hostname'', PBool True)]])])
                  (Inr PNone) =
       Inr \<lparr>available_nodes = [RemoteAccount (PInt 1) PNone PNone PNone PNone,
                                RemoteAccount (PBool True) PNone PNone PNone PNone],
            in_use_nodes = {}, id_supplier = 0\<rparr>
   \<and> len (do_calls [Alloc 2]
            \<lparr>available_nodes = [RemoteAccount (PInt 1) PNone PNone PNone PNone,
                                RemoteAccount (PBool True) PNone PNone PNone PNone],
             in_use_nodes = {}, id_supplier = 0\<rparr>) = 1"
proof -
  have a1: "JsonCluster (example_document [''a'', ''a'']) (Inr PNone)
              = Inr (example_cluster [''a'', ''a''])"
    by (rule example_JsonCluster)
  have a2: "length (map example_node [''a'', ''a'']) = 2"
    by simp
  have a3: "snd (alloc (example_cluster [''a'', ''a'']) 2) =
       Inr [\<lparr>account = example_account ''a'', slot_id = 0\<rparr>,
            \<lparr>account = example_account ''a'', slot_id = 1\<rparr>]"
    by (simp add: alloc_def num_available_nodes_def example_cluster_def example_account_def
          RemoteAccount_def account_hashable_def Let_def numeral_2_eq_2)
  have a4: "len (do_calls [Alloc 2] (example_cluster [''a'', ''a''])) = 1"
    by (simp add: do_calls_def alloc_def num_available_nodes_def len_def example_cluster_def
          example_account_def RemoteAccount_def account_hashable_def account_key_def
          Let_def numeral_2_eq_2)
  have a5: "JsonCluster (PDict [(''nodes'', PList [PDict [(''hostname'', PInt 1)],
                                                    PDict [(''hostname'', PBool True)]])])
                  (Inr PNone) =
       Inr \<lparr>available_nodes = [RemoteAccount (PInt 1) PNone PNone PNone PNone,
                                RemoteAccount (PBool True) PNone PNone PNone PNone],
            in_use_nodes = {}, id_supplier = 0\<rparr>"
    by (simp add: JsonCluster_def try_node_accounts_def node_account_def resolve_ip_def
          externally_routable_ip_hook_def RemoteAccount_def)
  have a6: "len (do_calls [Alloc 2]
            \<lparr>available_nodes = [RemoteAccount (PInt 1) PNone PNone PNone PNone,
                                RemoteAccount (PBool True) PNone PNone PNone PNone],
             in_use_nodes = {}, id_supplier = 0\<rparr>) = 1"
    by (simp add: do_calls_def alloc_def num_available_nodes_def len_def RemoteAccount_def
          account_hashable_def account_key_def Let_def numeral_2_eq_2)
  from a1 a2 a3 a4 a5 a6 show ?thesis by (intro conjI)
qed

section \<open>Exhaustion and order of allocation\<close>

text \<open>
  Claim C5. Whenever \<open>alloc\<close> is asked for more nodes than are available it raises
  \<open>RuntimeError\<close> and leaves the cluster as it was; the message is the text of the source
  with the size of the cluster, the requested number, the number of nodes in use and the
  number of available nodes in it, and ends with the advice to make sure that the
  cluster has enough nodes. On a pool of the two nodes \<open>a\<close> and \<open>b\<close>, \<open>alloc(3)\<close> fails
  so, with the numbers 2, 3, 0 and 2; and when \<open>alloc(2)\<close> has returned, \<open>alloc(1)\<close> fails
  in the same way.
\<close>

theorem alloc_exhaustion:
  "(int (num_available_nodes c) < n \<longrightarrow>
      alloc c n = (c, Inl (RuntimeError
         (alloc_err_msg (len c) n (card (in_use_nodes c)) (num_available_nodes c)))))
   \<and> alloc \<lparr>available_nodes = [a, b], in_use_nodes = {}, id_supplier = i\<rparr> 3 =
        (\<lparr>available_nodes = [a, b], in_use_nodes = {}, id_supplier = i\<rparr>,
         Inl (RuntimeError ''There aren't enough available nodes to satisfy the resource request. Total cluster size: 2, Requested: 3, Already allocated: 0, Available: 2. Make sure your cluster has enough nodes to run your test or service(s).''))
   \<and> (alloc \<lparr>available_nodes = [a, b], in_use_nodes = {}, id_supplier = i\<rparr> 2
         = (c2, Inr slots) \<longrightarrow>
       alloc c2 1 =
         (c2, Inl (RuntimeError
                    (alloc_err_msg (card {account_key a, account_key b}) 1
                                   (card {account_key a, account_key b}) 0))))"
proof (intro conjI impI)
  assume "int (num_available_nodes c) < n"
  then show "alloc c n = (c, Inl (RuntimeError
         (alloc_err_msg (len c) n (card (in_use_nodes c)) (num_available_nodes c))))"
    by (rule alloc_Inl_exhausted)
next
  show "alloc \<lparr>available_nodes = [a, b], in_use_nodes = {}, id_supplier = i\<rparr> 3 =
        (\<lparr>available_nodes = [a, b], in_use_nodes = {}, id_supplier = i\<rparr>,
         Inl (RuntimeError ''There aren't enough available nodes to satisfy the resource request. Total cluster size: 2, Requested: 3, Already allocated: 0, Available: 2. Make sure your cluster has enough nodes to run your test or service(s).''))"
    by (simp add: alloc_def num_available_nodes_def len_def alloc_err_msg_def str_int_def
          str_nat_digit)
next
  assume al: "alloc \<lparr>available_nodes = [a, b], in_use_nodes = {}, id_supplier = i\<rparr> 2
                = (c2, Inr slots)"
  from alloc_Inr(2) [OF al]
  have c2: "c2 = \<lparr>available_nodes = [], in_use_nodes = {account_key a, account_key b},
                  id_supplier = i + 2\<rparr>"
    by simp
  show "alloc c2 1 =
         (c2, Inl (RuntimeError
                    (alloc_err_msg (card {account_key a, account_key b}) 1
                                   (card {account_key a, account_key b}) 0)))"
    using alloc_Inl_exhausted [of c2 1] by (simp add: c2 num_available_nodes_def len_def)
qed

theorem alloc_exhaustion_witness:
  "int (num_available_nodes (example_cluster [''A'', ''B''])) < 3
   \<and> alloc (example_cluster [''A'', ''B'']) 3 =
       (example_cluster [''A'', ''B''],
        Inl (RuntimeError ''There aren't enough available nodes to satisfy the resource request. Total cluster size: 2, Requested: 3, Already allocated: 0, Available: 2. Make sure your cluster has enough nodes to run your test or service(s).''))
   \<and> alloc (example_cluster [''A'', ''B'']) 2 =
       (\<lparr>available_nodes = [], in_use_nodes = {example_account ''A'', example_account ''B''},
         id_supplier = 2\<rparr>,
        Inr [\<lparr>account = example_account ''A'', slot_id = 0\<rparr>,
             \<lparr>account = example_account ''B'', slot_id = 1\<rparr>])
   \<and> alloc \<lparr>available_nodes = [], in_use_nodes = {example_account ''A'', example_account ''B''},
             id_supplier = 2\<rparr> 1 =
       (\<lparr>available_nodes = [], in_use_nodes = {example_account ''A'', example_account ''B''},
         id_supplier = 2\<rparr>,
        Inl (RuntimeError ''There aren't enough available nodes to satisfy the resource request. Total cluster size: 2, Requested: 1, Already allocated: 2, Available: 0. Make sure your cluster has enough nodes to run your test or service(s).''))"
proof -
  have ec: "example_cluster [''A'', ''B''] =
      \<lparr>available_nodes = [example_account ''A'', example_account ''B''],
       in_use_nodes = {}, id_supplier = 0\<rparr>"
    by (simp add: example_cluster_def)
  have h1: "int (num_available_nodes (example_cluster [''A'', ''B''])) < 3"
    by (simp add: num_available_nodes_def example_cluster_def)
  have h2: "alloc \<lparr>available_nodes = [example_account ''A'', example_account ''B''],
                   in_use_nodes = {}, id_supplier = 0\<rparr> 2 =
       (\<lparr>available_nodes = [], in_use_nodes = {example_account ''A'', example_account ''B''},
         id_supplier = 2\<rparr>,
        Inr [\<lparr>account = example_account ''A'', slot_id = 0\<rparr>,
             \<lparr>account = example_account ''B'', slot_id = 1\<rparr>])"
    by (simp add: alloc_def num_available_nodes_def Let_def numeral_2_eq_2
          account_key_example insert_commute)
       (simp add: example_account_def RemoteAccount_def account_hashable_def)
  have card: "card {account_key (example_account ''A''), account_key (example_account ''B'')} = 2"
    by (simp add: account_key_example) (simp add: example_account_def RemoteAccount_def)
  have msg: "alloc_err_msg 2 1 2 0 = ''There aren't enough available nodes to satisfy the resource request. Total cluster size: 2, Requested: 1, Already allocated: 2, Available: 0. Make sure your cluster has enough nodes to run your test or service(s).''"
    by (simp add: alloc_err_msg_def str_int_def str_nat_digit)
  note t = alloc_exhaustion
         [of "example_cluster [''A'', ''B'']" 3 "example_account ''A''" "example_account ''B''" 0
             "\<lparr>available_nodes = [],
               in_use_nodes = {example_account ''A'', example_account ''B''},
               id_supplier = 2\<rparr>"
             "[\<lparr>account = example_account ''A'', slot_id = 0\<rparr>,
               \<lparr>account = example_account ''B'', slot_id = 1\<rparr>]"]
  note t2 = t [THEN conjunct2, THEN conjunct1]
  note t3 = t [THEN conjunct2, THEN conjunct2, THEN mp, OF h2]
  show ?thesis
    unfolding ec using h1 [unfolded ec] t2 h2 t3 [unfolded card msg]
    by (intro conjI)
qed

text \<open>
  Claim C6. A call of \<open>alloc\<close> that returns hands out the first accounts of the queue of
  available accounts, in the order of the queue, and leaves the rest of the queue; a
  call of \<open>free_single\<close> that returns has put the account of the slot at the back of
  the queue. For a pool of the nodes \<open>A\<close>, \<open>B\<close>, \<open>C\<close> whose accounts can be hashed, built
  with any value of the id supplier: \<open>alloc(1)\<close> returns the slot of \<open>A\<close>; freeing this
  slot makes the queue \<open>B\<close>, \<open>C\<close>, \<open>A\<close>; and the next \<open>alloc(1)\<close> returns the slot of
  \<open>B\<close>.
\<close>

theorem alloc_fifo_free_to_back:
  "(alloc c1 n = (c1', Inr slots) \<longrightarrow>
       map account slots = take (nat n) (available_nodes c1)
     \<and> available_nodes c1' = drop (nat n) (available_nodes c1))
   \<and> (free_single c2 s = (c2', Inr ()) \<longrightarrow>
       available_nodes c2' = available_nodes c2 @ [account s])
   \<and> (account_hashable A \<and> account_hashable B \<longrightarrow>
       alloc \<lparr>available_nodes = [A, B, C], in_use_nodes = {}, id_supplier = i\<rparr> 1 =
         (\<lparr>available_nodes = [B, C], in_use_nodes = {account_key A}, id_supplier = i + 1\<rparr>,
          Inr [\<lparr>account = A, slot_id = i\<rparr>])
     \<and> free_single
           \<lparr>available_nodes = [B, C], in_use_nodes = {account_key A}, id_supplier = i + 1\<rparr>
           \<lparr>account = A, slot_id = i\<rparr> =
         (\<lparr>available_nodes = [B, C, A], in_use_nodes = {}, id_supplier = i + 1\<rparr>, Inr ())
     \<and> alloc \<lparr>available_nodes = [B, C, A], in_use_nodes = {}, id_supplier = i + 1\<rparr> 1 =
         (\<lparr>available_nodes = [C, A], in_use_nodes = {account_key B}, id_supplier = i + 2\<rparr>,
          Inr [\<lparr>account = B, slot_id = i + 1\<rparr>]))"
proof (intro conjI impI)
  assume al: "alloc c1 n = (c1', Inr slots)"
  show "map account slots = take (nat n) (available_nodes c1)"
    by (rule alloc_Inr(3) [OF al])
  show "available_nodes c1' = drop (nat n) (available_nodes c1)"
    using alloc_Inr(2) [OF al] by simp
next
  assume "free_single c2 s = (c2', Inr ())"
  then show "available_nodes c2' = available_nodes c2 @ [account s]"
    by (auto simp: free_single_def split: if_splits)
next
  assume h: "account_hashable A \<and> account_hashable B"
  then show "alloc \<lparr>available_nodes = [A, B, C], in_use_nodes = {}, id_supplier = i\<rparr> 1 =
         (\<lparr>available_nodes = [B, C], in_use_nodes = {account_key A}, id_supplier = i + 1\<rparr>,
          Inr [\<lparr>account = A, slot_id = i\<rparr>])"
    by (simp add: alloc_def num_available_nodes_def Let_def)
  from h show "free_single
           \<lparr>available_nodes = [B, C], in_use_nodes = {account_key A}, id_supplier = i + 1\<rparr>
           \<lparr>account = A, slot_id = i\<rparr> =
         (\<lparr>available_nodes = [B, C, A], in_use_nodes = {}, id_supplier = i + 1\<rparr>, Inr ())"
    by (simp add: free_single_def)
  from h show "alloc \<lparr>available_nodes = [B, C, A], in_use_nodes = {}, id_supplier = i + 1\<rparr> 1 =
         (\<lparr>available_nodes = [C, A], in_use_nodes = {account_key B}, id_supplier = i + 2\<rparr>,
          Inr [\<lparr>account = B, slot_id = i + 1\<rparr>])"
    by (simp add: alloc_def num_available_nodes_def Let_def)
qed

theorem alloc_fifo_free_to_back_witness:
  "account_hashable (example_account ''A'') \<and> account_hashable (example_account ''B'')
   \<and> alloc (example_cluster [''A'', ''B'', ''C'']) 1 =
       (\<lparr>available_nodes = [example_account ''B'', example_account ''C''],
         in_use_nodes = {example_account ''A''}, id_supplier = 1\<rparr>,
        Inr [\<lparr>account = example_account ''A'', slot_id = 0\<rparr>])
   \<and> map account [\<lparr>account = example_account ''A'', slot_id = 0\<rparr>]
       = take 1 (available_nodes (example_cluster [''A'', ''B'', ''C'']))
   \<and> free_single \<lparr>available_nodes = [example_account ''B'', example_account ''C''],
                   in_use_nodes = {example_account ''A''}, id_supplier = 1\<rparr>
                  \<lparr>account = example_account ''A'', slot_id = 0\<rparr> =
       (\<lparr>available_nodes = [example_account ''B'', example_account ''C'', example_account ''A''],
         in_use_nodes = {}, id_supplier = 1\<rparr>, Inr ())
   \<and> alloc \<lparr>available_nodes = [example_account ''B'', example_account ''C'', example_account ''A''],
             in_use_nodes = {}, id_supplier = 1\<rparr> 1 =
       (\<lparr>available_nodes = [example_account ''C'', example_account ''A''],
         in_use_nodes = {example_account ''B''}, id_supplier = 2\<rparr>,
        Inr [\<lparr>account = example_account ''B'', slot_id = 1\<rparr>])"
proof -
  have h: "account_hashable (example_account ''A'') \<and> account_hashable (example_account ''B'')"
    by (simp add: example_account_def RemoteAccount_def account_hashable_def)
  from alloc_fifo_free_to_back
         [of "example_cluster [''A'', ''B'', ''C'']" 1
             "\<lparr>available_nodes = [example_account ''B'', example_account ''C''],
               in_use_nodes = {example_account ''A''}, id_supplier = 1\<rparr>"
             "[\<lparr>account = example_account ''A'', slot_id = 0\<rparr>]"
             "\<lparr>available_nodes = [example_account ''B'', example_account ''C''],
               in_use_nodes = {example_account ''A''}, id_supplier = 1\<rparr>"
             "\<lparr>account = example_account ''A'', slot_id = 0\<rparr>"
             "\<lparr>available_nodes = [example_account ''B'', example_account ''C'', example_account ''A''],
               in_use_nodes = {}, id_supplier = 1\<rparr>"
             "example_account ''A''" "example_account ''B''" "example_account ''C''" 0]
    h
  show ?thesis by (simp add: example_cluster_def account_key_example)
qed

section \<open>Malformed cluster documents\<close>







section \<open>The SSH options\<close>

text \<open>
  Claim C8. The claim takes the value of an option to be the whole remainder of its
  segment after the first space. The parser splits the cleaned segment at every space
  and stores the second piece: on the option string of the example document of
  \<open>JsonCluster\<close>, shortened to three options, whose values have no space, it builds the
  dictionary of the options, with the double quotes around the path of the identity file
  removed; for the option \<open>ProxyCommand ssh gateway\<close> it stores \<open>ssh\<close>; for an identity
  file \<open>/Users/John Doe/key\<close>, written between double quotes, it stores \<open>/Users/John\<close>;
  a backslash before the space of a value does not keep the value together; and for the
  option \<open>HostName node-one\<close>, whose value contains the marker, it raises \<open>IndexError\<close>.
\<close>

theorem ssh_args_dict_drops_remainder:
  "ssh_args_dict host
      (''-o 'HostName 127.0.0.1' -o 'Port 2222' -o 'IdentityFile '' @ [CHR 0x22]
       @ ''.vagrant/machines/machine123/virtualbox/private_key'' @ [CHR 0x22, CHR 0x27, CHR '' ''])
     = Inr [(''Host'', host), (''HostName'', PStr ''127.0.0.1''), (''Port'', PStr ''2222''),
            (''IdentityFile'', PStr ''.vagrant/machines/machine123/virtualbox/private_key'')]
   \<and> ssh_args_dict host ''-o 'ProxyCommand ssh gateway' ''
     = Inr [(''Host'', host), (''ProxyCommand'', PStr ''ssh'')]
   \<and> ssh_args_dict host
        (''-o 'IdentityFile '' @ [CHR 0x22] @ ''/Users/John Doe/key''
         @ [CHR 0x22, CHR 0x27, CHR '' ''])
     = Inr [(''Host'', host), (''IdentityFile'', PStr ''/Users/John'')]
   \<and> ssh_args_dict host
        (''-o 'IdentityFile /Users/John'' @ [CHR 0x5C] @ '' Doe/key'' @ [CHR 0x27, CHR '' ''])
     = Inr [(''Host'', host), (''IdentityFile'', PStr ''/Users/John'')]
   \<and> ssh_args_dict host ''-o 'HostName node-one' '' = Inl IndexError"
proof -
  have e1: "ssh_args_dict host
      (''-o 'HostName 127.0.0.1' -o 'Port 2222' -o 'IdentityFile '' @ [CHR 0x22]
       @ ''.vagrant/machines/machine123/virtualbox/private_key'' @ [CHR 0x22, CHR 0x27, CHR '' ''])
     = Inr [(''Host'', host), (''HostName'', PStr ''127.0.0.1''), (''Port'', PStr ''2222''),
            (''IdentityFile'', PStr ''.vagrant/machines/machine123/virtualbox/private_key'')]"
    by (simp add: ssh_args_dict_def split_def strip_def is_space_def replace_by_empty_def)
  have e2: "ssh_args_dict host ''-o 'ProxyCommand ssh gateway' ''
     = Inr [(''Host'', host), (''ProxyCommand'', PStr ''ssh'')]"
    by (simp add: ssh_args_dict_def split_def strip_def is_space_def replace_by_empty_def)
  have e3: "ssh_args_dict host
        (''-o 'IdentityFile '' @ [CHR 0x22] @ ''/Users/John Doe/key''
         @ [CHR 0x22, CHR 0x27, CHR '' ''])
     = Inr [(''Host'', host), (''IdentityFile'', PStr ''/Users/John'')]"
    by (simp add: ssh_args_dict_def split_def strip_def is_space_def replace_by_empty_def)
  have e4: "ssh_args_dict host
        (''-o 'IdentityFile /Users/John'' @ [CHR 0x5C] @ '' Doe/key'' @ [CHR 0x27, CHR '' ''])
     = Inr [(''Host'', host), (''IdentityFile'', PStr ''/Users/John'')]"
    by (simp add: ssh_args_dict_def split_def strip_def is_space_def replace_by_empty_def)
  have e5: "ssh_args_dict host ''-o 'HostName node-one' '' = Inl IndexError"
    by (simp add: ssh_args_dict_def split_def strip_def is_space_def replace_by_empty_def)
  from e1 e2 e3 e4 e5 show ?thesis by (intro conjI)
qed

end
